theory Spec2Isabelle
  imports Main "HOL-Library.Sublist"
begin

section \<open>The configuration registry of fastPage\<close>

text \<open>
  The module keeps one dictionary \<open>config\<close> from instance names to configuration
  objects. JavaScript objects and arrays are references: \<open>{ ...config.default }\<close> makes a
  new object whose fields hold the same values, so an array field of the copy is the very
  array of the original. The model therefore keeps three stores: \<open>objs\<close> (configuration
  objects by address), \<open>args_heap\<close> and \<open>hooks_heap\<close> (the arrays that \<open>args\<close> and
  \<open>hooks\<close> point to). The \<open>extensions\<close> array, the window size and the proxy object
  are only ever replaced as a whole by this module, never changed in place, and are kept
  as values.

  Objects handed out by the external library (browsers, contexts, pages, sessions) are
  identified by a number: the position, in the trace of external calls, of the call that
  made them.
\<close>

datatype engine = chromium | firefox | webkit

record BrowserTypeLaunchOptionsProxy =
  server :: string
  bypass :: "string option"
  username :: "string option"
  password :: "string option"

record hook =
  hook_name :: string
  hook_action :: nat

record ConfigValue =
  browserHandle :: "nat option"
  nonPersistantBrowserHandle :: "nat option"
  browserEngine :: engine
  proxy :: "BrowserTypeLaunchOptionsProxy option"
  headless :: bool
  devtools :: bool
  userDataDir :: "string option"
  windowSize :: "int \<times> int"
  blockFonts :: bool
  blockImages :: bool
  blockCSS :: bool
  defaultNavigationTimeout :: int
  extensions :: "string list"
  showPageError :: bool
  userAgent :: string
  args :: nat
  hooks :: nat
  enableStealth :: bool
  downloadDir :: "string option"

text \<open>
  The options objects passed to the external library. A key that the source does not
  write is absent (\<open>None\<close>).
\<close>

record options =
  opt_headless :: "bool option"
  opt_args :: "string list option"
  opt_devtools :: "bool option"
  opt_acceptDownloads :: "bool option"
  opt_downloadsPath :: "string option"
  opt_proxy :: "BrowserTypeLaunchOptionsProxy option"
  opt_colorScheme :: "string option"
  opt_ignoreHTTPSErrors :: "bool option"
  opt_bypassCSP :: "bool option"
  opt_userAgent :: "string option"
  opt_viewport :: "(int \<times> int) option"

datatype listener = PageErrorA | PageErrorB | RequestFilter nat

datatype ext_call =
    Launch engine options
  | LaunchPersistentContext engine string options
  | NewContext nat options
  | BrowserNewPage nat
  | CloseHandle nat
  | HookAction nat nat
  | SetDefaultNavigationTimeout nat int
  | SetDefaultTimeout nat int
  | NewCDPSession nat
  | PageStealth nat
  | AddScriptTag nat
  | PageOn nat string listener
  | SessionSend nat string

datatype error = TypeError | ExternalFailure nat

datatype log_entry = StartError error | CloseError error

text \<open>
  \<open>trace\<close> lists the calls made to the external library, oldest first, each with the
  instance name on whose behalf it was made. \<open>logs\<close> holds what \<open>error(...)\<close> in
  \<open>browser\<close> and \<open>console.log\<close> in \<open>closeBrowser\<close> print; the \<open>info(...)\<close>
  diagnostics are left out.
\<close>

record state =
  config :: "string \<rightharpoonup> nat"
  objs :: "nat \<Rightarrow> ConfigValue"
  next_obj :: nat
  args_heap :: "nat \<Rightarrow> string list"
  hooks_heap :: "nat \<Rightarrow> hook list"
  trace :: "(string \<times> ext_call) list"
  logs :: "log_entry list"

definition defaultConfig :: ConfigValue where
  "defaultConfig =
     \<lparr> browserHandle = None,
       nonPersistantBrowserHandle = None,
       browserEngine = chromium,
       proxy = None,
       headless = False,
       devtools = False,
       userDataDir = None,
       windowSize = (595, 842),
       blockFonts = False,
       blockImages = False,
       blockCSS = False,
       defaultNavigationTimeout = 30 * 1000,
       extensions = [],
       showPageError = False,
       userAgent = ''Mozilla/5.0 (Macintosh; Intel Mac OS X 10_15_1) AppleWebKit/537.36 (KHTML, like Gecko) Chrome/80.0.3987.87 Safari/537.36'',
       args = 0,
       hooks = 0,
       enableStealth = True,
       downloadDir = None \<rparr>"

text \<open>
  The state after the module is loaded: \<open>defaultConfig\<close> owns the arrays at address 0,
  and \<open>config.default\<close> is a spread copy of it, at object address 0.
\<close>

definition initial_state :: state where
  "initial_state =
     \<lparr> config = [''default'' \<mapsto> 0],
       objs = (\<lambda>_. defaultConfig),
       next_obj = 1,
       args_heap = (\<lambda>_. []),
       hooks_heap = (\<lambda>_. []),
       trace = [],
       logs = [] \<rparr>"

text \<open>
  \<open>init\<close>: a fresh object, spread from \<open>config.default\<close> or from \<open>defaultConfig\<close>.
  \<open>config.default\<close> is bound when the module is loaded and no operation removes a key
  (\<open>default_bound_init\<close>, \<open>default_bound_update\<close>); the branch for an unbound
  \<open>default\<close> is there for totality only.
\<close>

definition init :: "bool \<Rightarrow> string \<Rightarrow> state \<Rightarrow> state" where
  "init useCurrentDefaultConfig instanceName s =
     (let a = next_obj s;
          src = (if useCurrentDefaultConfig
                 then (case config s ''default'' of Some d \<Rightarrow> objs s d | None \<Rightarrow> defaultConfig)
                 else defaultConfig)
      in s\<lparr> config := (config s)(instanceName \<mapsto> a),
            objs := (objs s)(a := src),
            next_obj := Suc a \<rparr>)"

text \<open>
  A setter writes one field of \<open>config[instanceName]\<close>; on a name that is not a key of
  \<open>config\<close> the property access on \<open>undefined\<close> throws a TypeError.
\<close>

definition update_config :: "string \<Rightarrow> (ConfigValue \<Rightarrow> ConfigValue) \<Rightarrow> state \<Rightarrow> error + state" where
  "update_config instanceName f s =
     (case config s instanceName of
        None \<Rightarrow> Inl TypeError
      | Some a \<Rightarrow> Inr (s\<lparr> objs := (objs s)(a := f (objs s a)) \<rparr>))"

definition setProxy :: "string \<Rightarrow> BrowserTypeLaunchOptionsProxy \<Rightarrow> state \<Rightarrow> error + state" where
  "setProxy instanceName v = update_config instanceName (\<lambda>c. c\<lparr> proxy := Some v \<rparr>)"

definition setDefaultBrowser :: "string \<Rightarrow> engine \<Rightarrow> state \<Rightarrow> error + state" where
  "setDefaultBrowser instanceName v = update_config instanceName (\<lambda>c. c\<lparr> browserEngine := v \<rparr>)"




definition setUserDataDir :: "string \<Rightarrow> string \<Rightarrow> state \<Rightarrow> error + state" where
  "setUserDataDir instanceName v = update_config instanceName (\<lambda>c. c\<lparr> userDataDir := Some v \<rparr>)"

definition setUserAgent :: "string \<Rightarrow> string \<Rightarrow> state \<Rightarrow> error + state" where
  "setUserAgent instanceName v = update_config instanceName (\<lambda>c. c\<lparr> userAgent := v \<rparr>)"

definition setWindowSizeArg :: "string \<Rightarrow> int \<times> int \<Rightarrow> state \<Rightarrow> error + state" where
  "setWindowSizeArg instanceName v = update_config instanceName (\<lambda>c. c\<lparr> windowSize := v \<rparr>)"





definition set_blockImages :: "string \<Rightarrow> bool \<Rightarrow> state \<Rightarrow> error + state" where
  "set_blockImages instanceName v = update_config instanceName (\<lambda>c. c\<lparr> blockImages := v \<rparr>)"

definition set_blockFonts :: "string \<Rightarrow> bool \<Rightarrow> state \<Rightarrow> error + state" where
  "set_blockFonts instanceName v = update_config instanceName (\<lambda>c. c\<lparr> blockFonts := v \<rparr>)"

definition set_blockCSS :: "string \<Rightarrow> bool \<Rightarrow> state \<Rightarrow> error + state" where
  "set_blockCSS instanceName v = update_config instanceName (\<lambda>c. c\<lparr> blockCSS := v \<rparr>)"

text \<open>
  \<open>addHook\<close> and \<open>addArg\<close> push onto the array the instance's field points to; the
  object itself is not written.
\<close>

definition addHook :: "string \<Rightarrow> string \<Rightarrow> nat \<Rightarrow> state \<Rightarrow> error + state" where
  "addHook instanceName name action s =
     (case config s instanceName of
        None \<Rightarrow> Inl TypeError
      | Some a \<Rightarrow>
          (let h = hooks (objs s a)
           in Inr (s\<lparr> hooks_heap := (hooks_heap s)
                     (h := hooks_heap s h @ [\<lparr> hook_name = name, hook_action = action \<rparr>]) \<rparr>)))"

definition addArg :: "string \<Rightarrow> string \<Rightarrow> state \<Rightarrow> error + state" where
  "addArg instanceName arg s =
     (case config s instanceName of
        None \<Rightarrow> Inl TypeError
      | Some a \<Rightarrow>
          (let r = args (objs s a)
           in Inr (s\<lparr> args_heap := (args_heap s)(r := args_heap s r @ [arg]) \<rparr>)))"

text \<open>
  \<open>getConfig(name)\<close> returns the object bound to \<open>name\<close> (or \<open>undefined\<close>). What
  a caller can read through that reference is the object's fields together with the
  contents of its two arrays.
\<close>

definition getConfig :: "string \<Rightarrow> state \<Rightarrow> nat option" where
  "getConfig instanceName s = config s instanceName"

definition observe :: "state \<Rightarrow> nat \<Rightarrow> ConfigValue \<times> string list \<times> hook list" where
  "observe s a = (objs s a, args_heap s (args (objs s a)), hooks_heap s (hooks (objs s a)))"

definition observed_config :: "string \<Rightarrow> state \<Rightarrow> (ConfigValue \<times> string list \<times> hook list) option" where
  "observed_config instanceName s = map_option (observe s) (getConfig instanceName s)"

section \<open>Calls to the external library\<close>

text \<open>
  The external library is the environment. A call is appended to the trace; where the
  code waits for the call (an \<open>await\<close>, or a synchronous call whose exception would
  propagate) the environment decides whether it fails: \<open>fails k\<close> says that the call at
  position \<open>k\<close> of the trace throws. A call that succeeds returns the object numbered
  \<open>k\<close>. \<open>post\<close> is a call whose outcome the code never looks at.
\<close>

definition post :: "string \<Rightarrow> ext_call \<Rightarrow> state \<Rightarrow> state" where
  "post instanceName c s = s\<lparr> trace := trace s @ [(instanceName, c)] \<rparr>"

definition outcome :: "(nat \<Rightarrow> bool) \<Rightarrow> nat \<Rightarrow> error + nat" where
  "outcome fails k = (if fails k then Inl (ExternalFailure k) else Inr k)"

definition ext :: "(nat \<Rightarrow> bool) \<Rightarrow> string \<Rightarrow> ext_call \<Rightarrow> state \<Rightarrow> (error + nat) \<times> state" where
  "ext fails instanceName c s = (outcome fails (length (trace s)), post instanceName c s)"

definition and_then ::
  "(state \<Rightarrow> (error + 'a) \<times> state) \<Rightarrow> ('a \<Rightarrow> state \<Rightarrow> (error + 'b) \<times> state)
     \<Rightarrow> state \<Rightarrow> (error + 'b) \<times> state" where
  "and_then m f s = (case m s of (Inl e, s') \<Rightarrow> (Inl e, s') | (Inr x, s') \<Rightarrow> f x s')"

definition ok :: "'a \<Rightarrow> state \<Rightarrow> (error + 'a) \<times> state" where
  "ok x s = (Inr x, s)"

section \<open>Launch arguments\<close>

text \<open>
  JavaScript truthiness of an optional string: \<open>undefined\<close>, \<open>null\<close> and the empty
  string are falsy.
\<close>

definition truthy :: "string option \<Rightarrow> bool" where
  "truthy v = (case v of None \<Rightarrow> False | Some x \<Rightarrow> x \<noteq> [])"

text \<open>
  Template literals turn a number into its decimal notation. Window sizes are modelled
  as integers.
\<close>

definition digit_char :: "nat \<Rightarrow> char" where
  "digit_char d = ''0123456789'' ! d"

fun nat_str :: "nat \<Rightarrow> string" where
  "nat_str n = (if n < 10 then [digit_char n] else nat_str (n div 10) @ [digit_char (n mod 10)])"

declare nat_str.simps [simp del]

definition num_str :: "int \<Rightarrow> string" where
  "num_str i = (if i < 0 then CHR ''-'' # nat_str (nat (- i)) else nat_str (nat i))"

fun join :: "string \<Rightarrow> string list \<Rightarrow> string" where
  "join sep [] = []"
| "join sep [x] = x"
| "join sep (x # y # ys) = x @ sep @ join sep (y # ys)"

definition window_size_arg :: "ConfigValue \<Rightarrow> string" where
  "window_size_arg ic =
     ''--window-size='' @ num_str (fst (windowSize ic)) @ '','' @ num_str (snd (windowSize ic))"

definition launch_args :: "state \<Rightarrow> ConfigValue \<Rightarrow> string list" where
  "launch_args s ic =
     (let args0 = args_heap s (args ic)
      in if browserEngine ic = chromium
         then args0 @
              [''--no-sandbox'',
               ''--allow-running-insecure-content'',
               ''--disable-background-timer-throttling'',
               ''--disable-backgrounding-occluded-windows'',
               ''--disable-renderer-backgrounding'',
               ''--disable-web-security'',
               window_size_arg ic] @
              (if length (extensions ic) > 0
               then [''--disable-extensions-except='' @ join '','' (extensions ic),
                     ''--load-extension='' @ join '','' (extensions ic)]
               else [])
         else args0)"

definition no_options :: options where
  "no_options =
     \<lparr> opt_headless = None, opt_args = None, opt_devtools = None, opt_acceptDownloads = None,
       opt_downloadsPath = None, opt_proxy = None, opt_colorScheme = None,
       opt_ignoreHTTPSErrors = None, opt_bypassCSP = None, opt_userAgent = None,
       opt_viewport = None \<rparr>"

definition launchOption :: "state \<Rightarrow> ConfigValue \<Rightarrow> options" where
  "launchOption s ic =
     (let o1 = no_options\<lparr> opt_headless := Some (headless ic),
                           opt_args := Some (launch_args s ic),
                           opt_devtools := Some (devtools ic),
                           opt_acceptDownloads := Some True \<rparr>;
          o2 = (if truthy (downloadDir ic) then o1\<lparr> opt_downloadsPath := downloadDir ic \<rparr> else o1)
      in (if proxy ic \<noteq> None then o2\<lparr> opt_proxy := proxy ic \<rparr> else o2))"

text \<open>
  \<open>{ acceptDownloads: true, colorScheme: "dark", ...launchOption }\<close>: the two keys
  written first are kept unless \<open>launchOption\<close> has them.
\<close>

definition persistentOption :: "options \<Rightarrow> options" where
  "persistentOption lo =
     lo\<lparr> opt_acceptDownloads := (case opt_acceptDownloads lo of None \<Rightarrow> Some True | Some b \<Rightarrow> Some b),
         opt_colorScheme := (case opt_colorScheme lo of None \<Rightarrow> Some ''dark'' | Some c \<Rightarrow> Some c) \<rparr>"

definition contextOption :: "ConfigValue \<Rightarrow> options" where
  "contextOption ic =
     no_options\<lparr> opt_ignoreHTTPSErrors := Some True,
                 opt_acceptDownloads := Some True,
                 opt_bypassCSP := Some True,
                 opt_userAgent := Some (userAgent ic),
                 opt_colorScheme := Some ''dark'',
                 opt_viewport := Some (windowSize ic) \<rparr>"

section \<open>The launch coordinator\<close>

definition set_browserHandle :: "nat \<Rightarrow> nat option \<Rightarrow> state \<Rightarrow> state" where
  "set_browserHandle ic h s = s\<lparr> objs := (objs s)(ic := (objs s ic)\<lparr> browserHandle := h \<rparr>) \<rparr>"

definition set_nonPersistant :: "nat \<Rightarrow> nat option \<Rightarrow> state \<Rightarrow> state" where
  "set_nonPersistant ic h s =
     s\<lparr> objs := (objs s)(ic := (objs s ic)\<lparr> nonPersistantBrowserHandle := h \<rparr>) \<rparr>"

text \<open>
  The function passed to \<open>lock.acquire\<close> in \<open>browser\<close>, run without interruption.
  \<open>ic\<close> is the address of the object read from \<open>config\<close> at entry; the fields are read
  from that object at the point where the source reads them.
\<close>

definition browser_body :: "(nat \<Rightarrow> bool) \<Rightarrow> string \<Rightarrow> state \<Rightarrow> (error + nat) \<times> state" where
  "browser_body fails instanceName s =
     (case config s instanceName of
        None \<Rightarrow> (Inl TypeError, s)
      | Some ic \<Rightarrow>
          (case browserHandle (objs s ic) of
             Some h \<Rightarrow> (Inr h, s)
           | None \<Rightarrow>
               (let launchOpt = launchOption s (objs s ic)
                in case (if truthy (userDataDir (objs s ic)) then userDataDir (objs s ic) else None) of
                     Some dir \<Rightarrow>
                       and_then
                         (ext fails instanceName
                            (LaunchPersistentContext (browserEngine (objs s ic)) dir
                               (persistentOption launchOpt)))
                         (\<lambda>ctx s1. (Inr ctx, set_browserHandle ic (Some ctx) s1)) s
                   | None \<Rightarrow>
                       and_then
                         (ext fails instanceName (Launch (browserEngine (objs s ic)) launchOpt))
                         (\<lambda>b s1.
                            and_then
                              (ext fails instanceName (NewContext b (contextOption (objs s1 ic))))
                              (\<lambda>ctx s2. (Inr ctx, set_browserHandle ic (Some ctx) s2))
                              (set_nonPersistant ic (Some b) s1)) s)))"

text \<open>\<open>browser\<close>: the body, and the \<open>catch\<close> that logs and throws again.\<close>

definition browser :: "(nat \<Rightarrow> bool) \<Rightarrow> string \<Rightarrow> state \<Rightarrow> (error + nat) \<times> state" where
  "browser fails instanceName s =
     (case browser_body fails instanceName s of
        (Inl err, s') \<Rightarrow> (Inl err, s'\<lparr> logs := logs s' @ [StartError err] \<rparr>)
      | (Inr h, s') \<Rightarrow> (Inr h, s'))"

definition getBrowserHandle :: "(nat \<Rightarrow> bool) \<Rightarrow> string \<Rightarrow> state \<Rightarrow> (error + nat) \<times> state" where
  "getBrowserHandle fails instanceName s = browser fails instanceName s"

section \<open>The close coordinator\<close>

text \<open>
  The function passed to \<open>lock.acquire\<close> in \<open>closeBrowser\<close>. Every statement looks
  \<open>config[instanceName]\<close> up again. The \<open>close()\<close> of the directly owned browser is not
  awaited, so its outcome is never seen; the \<open>close()\<close> of the context is awaited.
\<close>

definition clear_handles :: "string \<Rightarrow> state \<Rightarrow> (error + unit) \<times> state" where
  "clear_handles instanceName s =
     and_then
       (\<lambda>s. case config s instanceName of
               None \<Rightarrow> (Inl TypeError, s)
             | Some ic \<Rightarrow> (Inr (), set_browserHandle ic None s))
       (\<lambda>_ s. case config s instanceName of
               None \<Rightarrow> (Inl TypeError, s)
             | Some ic \<Rightarrow> (Inr (), set_nonPersistant ic None s)) s"

definition closeBrowser_body :: "(nat \<Rightarrow> bool) \<Rightarrow> string \<Rightarrow> state \<Rightarrow> (error + string) \<times> state" where
  "closeBrowser_body fails instanceName s =
     and_then
       (\<lambda>s. case config s instanceName of
               None \<Rightarrow> (Inl TypeError, s)
             | Some ic \<Rightarrow>
                 (case nonPersistantBrowserHandle (objs s ic) of
                    Some b \<Rightarrow> (Inr (), post instanceName (CloseHandle b) s)
                  | None \<Rightarrow>
                      (case browserHandle (objs s ic) of
                         Some _ \<Rightarrow>
                           and_then (browser fails instanceName)
                             (\<lambda>bHandle. and_then (ext fails instanceName (CloseHandle bHandle))
                                           (\<lambda>_. ok ())) s
                       | None \<Rightarrow> (Inr (), s))))
       (\<lambda>_. and_then (clear_handles instanceName) (\<lambda>_. ok ''closed'')) s"

text \<open>
  \<open>closeBrowser\<close>: the body, and the \<open>catch\<close> whose handler returns what
  \<open>console.log\<close> returns, \<open>undefined\<close> (here \<open>None\<close>).
\<close>

definition closeBrowser :: "(nat \<Rightarrow> bool) \<Rightarrow> string \<Rightarrow> state \<Rightarrow> string option \<times> state" where
  "closeBrowser fails instanceName s =
     (case closeBrowser_body fails instanceName s of
        (Inl err, s') \<Rightarrow> (None, s'\<lparr> logs := logs s' @ [CloseError err] \<rparr>)
      | (Inr r, s') \<Rightarrow> (Some r, s'))"

section \<open>The page preparer\<close>

text \<open>
  Hooks are callbacks of the user. The model records that each matching hook is called,
  in order; what a hook throws never reaches the caller (it is thrown inside an
  \<open>async\<close> arrow whose promise is dropped), and hooks are taken not to call back into
  this module.
\<close>

definition loadHooks :: "hook list \<Rightarrow> string \<Rightarrow> string \<Rightarrow> nat \<Rightarrow> state \<Rightarrow> state" where
  "loadHooks hs name instanceName page s =
     foldl (\<lambda>s' v. post instanceName (HookAction (hook_action v) page) s') s
       (filter (\<lambda>v. hook_name v = name) hs)"

datatype request_action = Abort | Continue

text \<open>The listener on \<open>request\<close>, as a function of the object it closes over.\<close>

definition request_handler :: "ConfigValue \<Rightarrow> string \<Rightarrow> request_action" where
  "request_handler instanceConfig resourceType =
     (if (blockImages instanceConfig \<and> resourceType = ''image'')
         \<or> (blockFonts instanceConfig \<and> resourceType = ''font'')
         \<or> (blockCSS instanceConfig \<and> resourceType = ''stylesheet'')
      then Abort else Continue)"

text \<open>What an installed listener does with a request, in state \<open>s\<close>.\<close>

fun on_request :: "state \<Rightarrow> listener \<Rightarrow> string \<Rightarrow> request_action option" where
  "on_request s (RequestFilter ic) resourceType = Some (request_handler (objs s ic) resourceType)"
| "on_request s PageErrorA resourceType = None"
| "on_request s PageErrorB resourceType = None"

text \<open>
  \<open>makePageFaster\<close>, block by block. \<open>ic\<close> is the address of \<open>instanceConfig\<close>.
  The session is \<open>None\<close> where the source has \<open>null\<close>.
\<close>

definition set_timeouts :: "(nat \<Rightarrow> bool) \<Rightarrow> nat \<Rightarrow> string \<Rightarrow> nat \<Rightarrow> state \<Rightarrow> (error + nat) \<times> state" where
  "set_timeouts fails page instanceName ic =
     and_then (\<lambda>s. ext fails instanceName
                 (SetDefaultNavigationTimeout page (defaultNavigationTimeout (objs s ic))) s)
       (\<lambda>_ s. ext fails instanceName
                 (SetDefaultTimeout page (defaultNavigationTimeout (objs s ic))) s)"

definition open_session ::
  "(nat \<Rightarrow> bool) \<Rightarrow> nat \<Rightarrow> string \<Rightarrow> nat \<Rightarrow> state \<Rightarrow> (error + nat option) \<times> state" where
  "open_session fails page instanceName ic s =
     (if browserEngine (objs s ic) = chromium
      then and_then (ext fails instanceName (NewCDPSession page)) (\<lambda>k. ok (Some k)) s
      else ok None s)"

definition apply_stealth :: "(nat \<Rightarrow> bool) \<Rightarrow> nat \<Rightarrow> string \<Rightarrow> nat \<Rightarrow> state \<Rightarrow> (error + unit) \<times> state" where
  "apply_stealth fails page instanceName ic s =
     (if enableStealth (objs s ic)
      then and_then (ext fails instanceName (PageStealth page)) (\<lambda>_. ok ()) s
      else ok () s)"

definition show_page_errors :: "(nat \<Rightarrow> bool) \<Rightarrow> nat \<Rightarrow> string \<Rightarrow> nat \<Rightarrow> state \<Rightarrow> (error + unit) \<times> state" where
  "show_page_errors fails page instanceName ic s =
     (if showPageError (objs s ic)
      then and_then (ext fails instanceName (PageOn page ''pageerror'' PageErrorA))
             (\<lambda>_. and_then (ext fails instanceName (PageOn page ''pageerror'' PageErrorB))
                (\<lambda>_. ok ())) s
      else ok () s)"

definition install_request_filter ::
  "(nat \<Rightarrow> bool) \<Rightarrow> nat \<Rightarrow> string \<Rightarrow> nat \<Rightarrow> state \<Rightarrow> (error + unit) \<times> state" where
  "install_request_filter fails page instanceName ic s =
     (if blockCSS (objs s ic) \<or> blockFonts (objs s ic) \<or> blockImages (objs s ic)
      then and_then (ext fails instanceName (PageOn page ''request'' (RequestFilter ic)))
             (\<lambda>_. ok ()) s
      else ok () s)"

definition activate_session ::
  "(nat \<Rightarrow> bool) \<Rightarrow> string \<Rightarrow> nat option \<Rightarrow> state \<Rightarrow> (error + unit) \<times> state" where
  "activate_session fails instanceName session s =
     (case session of
        Some sess \<Rightarrow>
          and_then (ext fails instanceName (SessionSend sess ''Page.setWebLifecycleState''))
            (\<lambda>_. ok ()) s
      | None \<Rightarrow> ok () s)"

definition makePageFaster ::
  "(nat \<Rightarrow> bool) \<Rightarrow> nat \<Rightarrow> string \<Rightarrow> state \<Rightarrow> (error + nat option \<times> nat) \<times> state" where
  "makePageFaster fails page instanceName s =
     (case config s instanceName of
        None \<Rightarrow> (Inl TypeError, s)
      | Some ic \<Rightarrow>
          and_then (set_timeouts fails page instanceName ic)
          (\<lambda>_. and_then (open_session fails page instanceName ic)
          (\<lambda>session. and_then (apply_stealth fails page instanceName ic)
          (\<lambda>_. and_then (ext fails instanceName (AddScriptTag page))
          (\<lambda>_. and_then (show_page_errors fails page instanceName ic)
          (\<lambda>_. and_then (install_request_filter fails page instanceName ic)
          (\<lambda>_. and_then (activate_session fails instanceName session)
          (\<lambda>_. ok (session, page))))))))
          (loadHooks (hooks_heap s (hooks (objs s ic))) ''make_page_faster'' instanceName page s))"

section \<open>Opening pages\<close>


definition newPage1 :: "(nat \<Rightarrow> bool) \<Rightarrow> string \<Rightarrow> state \<Rightarrow> (error + nat \<times> nat option) \<times> state" where
  "newPage1 fails instanceName s =
     and_then (browser fails instanceName)
       (\<lambda>brow. and_then (ext fails instanceName (BrowserNewPage brow))
          (\<lambda>p. and_then (makePageFaster fails p instanceName)
             (\<lambda>(session, page). ok (page, session)))) s"

section \<open>The frame finder\<close>

text \<open>
  \<open>waitForFrame\<close> scans \<open>page.frames()\<close> and sleeps 100 ms between scans. What the
  page shows is the environment: \<open>frames i\<close> is the list that scan number \<open>i\<close>
  reads. \<open>str_includes s sub\<close> is \<open>s.includes(sub)\<close>. The loop has no bound, so it
  is a partial function: \<open>None\<close> means that it never returns. With the frame, the model
  returns the total time slept, in milliseconds.
\<close>

record frame =
  frame_id :: nat
  frame_url :: string

fun str_includes :: "string \<Rightarrow> string \<Rightarrow> bool" where
  "str_includes [] sub = (sub = [])"
| "str_includes (c # cs) sub = (prefix sub (c # cs) \<or> str_includes cs sub)"

definition matching :: "string \<Rightarrow> frame list \<Rightarrow> frame option" where
  "matching frameUrl fs = find (\<lambda>f. str_includes (frame_url f) frameUrl) fs"

partial_function (option) waitForFrame_loop ::
  "(nat \<Rightarrow> frame list) \<Rightarrow> string \<Rightarrow> nat \<Rightarrow> (frame \<times> nat) option" where
  "waitForFrame_loop frames frameUrl i =
     (case matching frameUrl (frames i) of
        Some f \<Rightarrow> Some (f, i)
      | None \<Rightarrow> waitForFrame_loop frames frameUrl (Suc i))"

definition waitForFrame :: "(nat \<Rightarrow> frame list) \<Rightarrow> string \<Rightarrow> (frame \<times> nat) option" where
  "waitForFrame frames frameUrl =
     map_option (\<lambda>(f, i). (f, 100 * i)) (waitForFrame_loop frames frameUrl 0)"

section \<open>Counting calls, and example states\<close>

fun is_launch :: "ext_call \<Rightarrow> bool" where
  "is_launch (Launch e opts) = True"
| "is_launch (LaunchPersistentContext e d opts) = True"
| "is_launch c = False"


text \<open>The number of launch calls, and of close calls, made so far for an instance.\<close>

definition launch_calls :: "string \<Rightarrow> state \<Rightarrow> nat" where
  "launch_calls instanceName s =
     length (filter (\<lambda>(n, c). n = instanceName \<and> is_launch c) (trace s))"


text \<open>The calls made between two states, oldest first.\<close>

definition calls_since :: "state \<Rightarrow> state \<Rightarrow> ext_call list" where
  "calls_since s s' = map snd (drop (length (trace s)) (trace s'))"

text \<open>\<open>emit\<close> appends a list of calls of one instance to the trace.\<close>

definition emit :: "string \<Rightarrow> ext_call list \<Rightarrow> state \<Rightarrow> state" where
  "emit n evs s = s\<lparr> trace := trace s @ map (Pair n) evs \<rparr>"

text \<open>
  The calls of a run of \<open>makePageFaster\<close> in which nothing fails: the hooks, then the
  calls on the page; \<open>k\<close> is the number of the session.
\<close>

definition hook_calls :: "state \<Rightarrow> nat \<Rightarrow> nat \<Rightarrow> ext_call list" where
  "hook_calls s ic page =
     map (\<lambda>v. HookAction (hook_action v) page)
       (filter (\<lambda>v. hook_name v = ''make_page_faster'') (hooks_heap s (hooks (objs s ic))))"

definition page_calls :: "ConfigValue \<Rightarrow> nat \<Rightarrow> nat \<Rightarrow> nat \<Rightarrow> ext_call list" where
  "page_calls c ic page k =
     [SetDefaultNavigationTimeout page (defaultNavigationTimeout c),
      SetDefaultTimeout page (defaultNavigationTimeout c)]
     @ (if browserEngine c = chromium then [NewCDPSession page] else [])
     @ (if enableStealth c then [PageStealth page] else [])
     @ [AddScriptTag page]
     @ (if showPageError c
        then [PageOn page ''pageerror'' PageErrorA, PageOn page ''pageerror'' PageErrorB] else [])
     @ (if blockCSS c \<or> blockFonts c \<or> blockImages c
        then [PageOn page ''request'' (RequestFilter ic)] else [])
     @ (if browserEngine c = chromium then [SessionSend k ''Page.setWebLifecycleState''] else [])"

text \<open>Setters applied in sequence to the state after load; the first error stops the run.\<close>

fun apply_all :: "(state \<Rightarrow> error + state) list \<Rightarrow> state \<Rightarrow> error + state" where
  "apply_all [] s = Inr s"
| "apply_all (f # fs) s = (case f s of Inl e \<Rightarrow> Inl e | Inr s' \<Rightarrow> apply_all fs s')"

definition configured :: "(state \<Rightarrow> error + state) list \<Rightarrow> state" where
  "configured fs = (case apply_all fs initial_state of Inr s \<Rightarrow> s | Inl e \<Rightarrow> initial_state)"

text \<open>Two environments: one in which no external call fails, one in which every call does.\<close>

definition never :: "nat \<Rightarrow> bool" where
  "never k = False"

definition always :: "nat \<Rightarrow> bool" where
  "always k = True"

text \<open>The default instance with a profile directory, after a launch that succeeded.\<close>

definition persistent_launched :: state where
  "persistent_launched =
     snd (getBrowserHandle never ''default'' (configured [setUserDataDir ''default'' ''/tmp/profile'']))"

text \<open>Kinds of calls on a page, and two more example states.\<close>

fun is_request_listener :: "ext_call \<Rightarrow> bool" where
  "is_request_listener (PageOn p ev l) = (ev = ''request'')"
| "is_request_listener c = False"

fun is_session_send :: "ext_call \<Rightarrow> bool" where
  "is_session_send (SessionSend k m) = True"
| "is_session_send c = False"

definition firefox_example :: state where
  "firefox_example = configured [setDefaultBrowser ''default'' firefox]"

definition blocking_example :: state where
  "blocking_example = configured [set_blockImages ''default'' True]"

text \<open>Two pages: one that never shows a payment frame, one that shows it from the third scan on.\<close>

definition one_frame :: "nat \<Rightarrow> frame list" where
  "one_frame i = [\<lparr> frame_id = 0, frame_url = ''https://shop.example/cart'' \<rparr>]"

definition late_frame :: "nat \<Rightarrow> frame list" where
  "late_frame i =
     (if i < 2 then [\<lparr> frame_id = 0, frame_url = ''https://shop.example/cart'' \<rparr>]
      else [\<lparr> frame_id = 0, frame_url = ''https://shop.example/cart'' \<rparr>,
            \<lparr> frame_id = 1, frame_url = ''https://pay.example/checkout'' \<rparr>,
            \<lparr> frame_id = 2, frame_url = ''https://pay.example/3ds'' \<rparr>])"

section \<open>Concurrent requests\<close>

text \<open>
  JavaScript runs one piece of code at a time; a request gives up control at each
  \<open>await\<close>. The model cuts \<open>browser\<close>, \<open>newPage\<close> and \<open>closeBrowser\<close> at
  their awaits and lets the pieces of different requests run in any order.

  First \<open>browser\<close>: the function it passes to \<open>lock.acquire\<close> is \<open>browser_enter\<close>
  up to its first await and \<open>browser_resume\<close> from one await to the next. An await
  remembers \<open>ic\<close> and the position of the call it waits for.
\<close>

datatype wait = AwaitPersistent nat nat | AwaitLaunch nat nat | AwaitNewContext nat nat

datatype section_result = Returned "error + nat" | Waiting wait

definition browser_enter :: "string \<Rightarrow> state \<Rightarrow> section_result \<times> state" where
  "browser_enter instanceName s =
     (case config s instanceName of
        None \<Rightarrow> (Returned (Inl TypeError), s)
      | Some ic \<Rightarrow>
          (case browserHandle (objs s ic) of
             Some h \<Rightarrow> (Returned (Inr h), s)
           | None \<Rightarrow>
               (let launchOpt = launchOption s (objs s ic)
                in case (if truthy (userDataDir (objs s ic)) then userDataDir (objs s ic) else None) of
                     Some dir \<Rightarrow>
                       (Waiting (AwaitPersistent ic (length (trace s))),
                        post instanceName
                          (LaunchPersistentContext (browserEngine (objs s ic)) dir
                             (persistentOption launchOpt)) s)
                   | None \<Rightarrow>
                       (Waiting (AwaitLaunch ic (length (trace s))),
                        post instanceName (Launch (browserEngine (objs s ic)) launchOpt) s))))"

definition browser_resume :: "(nat \<Rightarrow> bool) \<Rightarrow> string \<Rightarrow> wait \<Rightarrow> state \<Rightarrow> section_result \<times> state" where
  "browser_resume fails instanceName w s =
     (case w of
        AwaitPersistent ic k \<Rightarrow>
          (case outcome fails k of
             Inl e \<Rightarrow> (Returned (Inl e), s)
           | Inr ctx \<Rightarrow> (Returned (Inr ctx), set_browserHandle ic (Some ctx) s))
      | AwaitLaunch ic k \<Rightarrow>
          (case outcome fails k of
             Inl e \<Rightarrow> (Returned (Inl e), s)
           | Inr b \<Rightarrow>
               (Waiting (AwaitNewContext ic (length (trace s))),
                post instanceName (NewContext b (contextOption (objs s ic)))
                  (set_nonPersistant ic (Some b) s)))
      | AwaitNewContext ic k \<Rightarrow>
          (case outcome fails k of
             Inl e \<Rightarrow> (Returned (Inl e), s)
           | Inr ctx \<Rightarrow> (Returned (Inr ctx), set_browserHandle ic (Some ctx) s)))"

text \<open>
  The pieces run one after the other, with nothing in between; \<open>browser_pieces\<close> is
  the same function as \<open>browser_body\<close> (lemma \<open>browser_body_pieces\<close>). A section
  has at most two awaits; the last branch is never taken.
\<close>

definition browser_pieces :: "(nat \<Rightarrow> bool) \<Rightarrow> string \<Rightarrow> state \<Rightarrow> (error + nat) \<times> state" where
  "browser_pieces fails instanceName s =
     (case browser_enter instanceName s of
        (Returned r, s1) \<Rightarrow> (r, s1)
      | (Waiting w1, s1) \<Rightarrow>
          (case browser_resume fails instanceName w1 s1 of
             (Returned r, s2) \<Rightarrow> (r, s2)
           | (Waiting w2, s2) \<Rightarrow>
               (case browser_resume fails instanceName w2 s2 of
                  (Returned r, s3) \<Rightarrow> (r, s3)
                | (Waiting w3, s3) \<Rightarrow> (Inl TypeError, s3))))"

text \<open>
  The lock of the external library is a map from keys to the request that holds the
  key: \<open>acquire\<close> runs its function at once when the key is free and queues the request
  otherwise; the key is released when the function has finished. A queued request takes
  the key at some later time when the key is free (the model does not fix which queued
  request goes first).
\<close>

definition launch_key :: "string \<Rightarrow> string" where
  "launch_key instanceName = ''instance_'' @ instanceName"

definition close_key :: "string \<Rightarrow> string" where
  "close_key instanceName = ''instance_close_'' @ instanceName"

datatype request = GetBrowserHandle string | NewPage string | CloseBrowser string

fun instance_of :: "request \<Rightarrow> string" where
  "instance_of (GetBrowserHandle n) = n"
| "instance_of (NewPage n) = n"
| "instance_of (CloseBrowser n) = n"

fun is_close_request :: "request \<Rightarrow> bool" where
  "is_close_request (CloseBrowser n) = True"
| "is_close_request r = False"

datatype outcome = Handle "error + nat" | Page "error + nat" | Closed "string option"

text \<open>
  Where a request stands: not begun; \<open>newPage\<close> at \<open>await init()\<close>; queued for the
  launch key; inside the launch section at an await; \<open>browser\<close> has settled and the caller
  is about to go on; \<open>newPage\<close> at \<open>await brow.newPage()\<close>; queued for the close key;
  \<open>closeBrowser\<close> at \<open>await bHandle.close()\<close>; finished.
\<close>

datatype pc =
    Start
  | AfterInit
  | LaunchQueued
  | InLaunch wait
  | GotBrowser "error + nat"
  | AwaitNewPage nat
  | CloseQueued
  | AwaitClose nat
  | Done outcome

text \<open>\<open>brow\<close> is the handle that \<open>browser\<close> gave to this request, once it has.\<close>

record task =
  request :: request
  pc :: pc
  brow :: "nat option"

record system =
  shared :: state
  locks :: "string \<Rightarrow> nat option"
  tasks :: "nat \<Rightarrow> task"

definition set_pc :: "nat \<Rightarrow> pc \<Rightarrow> system \<Rightarrow> system" where
  "set_pc i p g = g\<lparr> tasks := (tasks g)(i := (tasks g i)\<lparr> pc := p \<rparr>) \<rparr>"

text \<open>
  \<open>browser\<close> has settled with \<open>r\<close>: its \<open>catch\<close> logs an error and throws it again,
  and the caller goes on. \<open>getBrowserHandle\<close> returns what \<open>browser\<close> returned.
\<close>

definition settle :: "nat \<Rightarrow> error + nat \<Rightarrow> system \<Rightarrow> system" where
  "settle i r g =
     (let s = shared g;
          s' = (case r of Inl err \<Rightarrow> s\<lparr> logs := logs s @ [StartError err] \<rparr> | Inr h \<Rightarrow> s);
          t = tasks g i;
          b = (case r of Inl err \<Rightarrow> brow t | Inr h \<Rightarrow> Some h);
          p = (case request t of
                 GetBrowserHandle n \<Rightarrow> Done (Handle r)
               | NewPage n \<Rightarrow> GotBrowser r
               | CloseBrowser n \<Rightarrow> GotBrowser r)
      in g\<lparr> shared := s', tasks := (tasks g)(i := t\<lparr> pc := p, brow := b \<rparr>) \<rparr>)"

text \<open>The call \<open>browser(n)\<close> by request \<open>i\<close>, when the launch key is free and when not.\<close>

definition enter_launch :: "nat \<Rightarrow> string \<Rightarrow> system \<Rightarrow> system" where
  "enter_launch i n g =
     (case browser_enter n (shared g) of
        (Returned r, s') \<Rightarrow> settle i r (g\<lparr> shared := s' \<rparr>)
      | (Waiting w, s') \<Rightarrow>
          set_pc i (InLaunch w) (g\<lparr> shared := s', locks := (locks g)(launch_key n \<mapsto> i) \<rparr>))"

definition call_browser :: "nat \<Rightarrow> string \<Rightarrow> system \<Rightarrow> system" where
  "call_browser i n g =
     (case locks g (launch_key n) of
        None \<Rightarrow> enter_launch i n g
      | Some j \<Rightarrow> set_pc i LaunchQueued g)"

definition resume_launch :: "(nat \<Rightarrow> bool) \<Rightarrow> nat \<Rightarrow> string \<Rightarrow> wait \<Rightarrow> system \<Rightarrow> system" where
  "resume_launch fails i n w g =
     (case browser_resume fails n w (shared g) of
        (Returned r, s') \<Rightarrow> settle i r (g\<lparr> shared := s', locks := (locks g)(launch_key n := None) \<rparr>)
      | (Waiting w', s') \<Rightarrow> set_pc i (InLaunch w') (g\<lparr> shared := s' \<rparr>))"

text \<open>
  The function of \<open>closeBrowser\<close> has finished with \<open>r\<close>: the close key is released,
  and the \<open>catch\<close> turns an error into a log line and \<open>undefined\<close>.
\<close>

definition leave_close :: "nat \<Rightarrow> string \<Rightarrow> error + string \<Rightarrow> system \<Rightarrow> system" where
  "leave_close i n r g =
     (let s = shared g;
          s' = (case r of Inl err \<Rightarrow> s\<lparr> logs := logs s @ [CloseError err] \<rparr> | Inr v \<Rightarrow> s);
          out = (case r of Inl err \<Rightarrow> None | Inr v \<Rightarrow> Some v)
      in set_pc i (Done (Closed out)) (g\<lparr> shared := s', locks := (locks g)(close_key n := None) \<rparr>))"

definition finish_close :: "nat \<Rightarrow> string \<Rightarrow> system \<Rightarrow> system" where
  "finish_close i n g =
     (case clear_handles n (shared g) of
        (Inl e, s') \<Rightarrow> leave_close i n (Inl e) (g\<lparr> shared := s' \<rparr>)
      | (Inr u, s') \<Rightarrow> leave_close i n (Inr ''closed'') (g\<lparr> shared := s' \<rparr>))"

text \<open>Request \<open>i\<close> takes the close key and runs the function up to its first await.\<close>

definition enter_close :: "nat \<Rightarrow> string \<Rightarrow> system \<Rightarrow> system" where
  "enter_close i n g0 =
     (let g = g0\<lparr> locks := (locks g0)(close_key n \<mapsto> i) \<rparr>
      in case config (shared g) n of
           None \<Rightarrow> leave_close i n (Inl TypeError) g
         | Some ic \<Rightarrow>
             (case nonPersistantBrowserHandle (objs (shared g) ic) of
                Some b \<Rightarrow> finish_close i n (g\<lparr> shared := post n (CloseHandle b) (shared g) \<rparr>)
              | None \<Rightarrow>
                  (case browserHandle (objs (shared g) ic) of
                     Some h \<Rightarrow> call_browser i n g
                   | None \<Rightarrow> finish_close i n g)))"

text \<open>What \<open>newPage\<close> does with the page that \<open>brow.newPage()\<close> gave.\<close>

definition prepare_page :: "(nat \<Rightarrow> bool) \<Rightarrow> nat \<Rightarrow> string \<Rightarrow> nat \<Rightarrow> system \<Rightarrow> system" where
  "prepare_page fails i n p g =
     (case makePageFaster fails p n (shared g) of
        (Inl e, s') \<Rightarrow> set_pc i (Done (Page (Inl e))) (g\<lparr> shared := s' \<rparr>)
      | (Inr (session, page), s') \<Rightarrow> set_pc i (Done (Page (Inr page))) (g\<lparr> shared := s' \<rparr>))"

text \<open>
  A piece of \<open>browser(n)\<close> called by request \<open>i\<close>: a queued call takes the key when
  it is free, a call at an await goes on to the next await or to the end of the section.
\<close>

definition browser_step :: "(nat \<Rightarrow> bool) \<Rightarrow> nat \<Rightarrow> string \<Rightarrow> system \<Rightarrow> system option" where
  "browser_step fails i n g =
     (case pc (tasks g i) of
        LaunchQueued \<Rightarrow>
          (if locks g (launch_key n) = None then Some (enter_launch i n g) else None)
      | InLaunch w \<Rightarrow> Some (resume_launch fails i n w g)
      | _ \<Rightarrow> None)"

text \<open>
  One piece of request \<open>i\<close>. \<open>None\<close>: the request cannot move (it is queued and the
  key is held, or it has finished).
\<close>

definition step :: "(nat \<Rightarrow> bool) \<Rightarrow> nat \<Rightarrow> system \<Rightarrow> system option" where
  "step fails i g =
     (case request (tasks g i) of
        GetBrowserHandle n \<Rightarrow>
          (case pc (tasks g i) of
             Start \<Rightarrow> Some (call_browser i n g)
           | _ \<Rightarrow> browser_step fails i n g)
      | NewPage n \<Rightarrow>
          (case pc (tasks g i) of
             Start \<Rightarrow>
               (if config (shared g) n = None
                then Some (set_pc i AfterInit (g\<lparr> shared := init True n (shared g) \<rparr>))
                else Some (call_browser i n g))
           | AfterInit \<Rightarrow> Some (call_browser i n g)
           | GotBrowser r \<Rightarrow>
               (case r of
                  Inl e \<Rightarrow> Some (set_pc i (Done (Page (Inl e))) g)
                | Inr b \<Rightarrow>
                    Some (set_pc i (AwaitNewPage (length (trace (shared g))))
                            (g\<lparr> shared := post n (BrowserNewPage b) (shared g) \<rparr>)))
           | AwaitNewPage k \<Rightarrow>
               (case outcome fails k of
                  Inl e \<Rightarrow> Some (set_pc i (Done (Page (Inl e))) g)
                | Inr p \<Rightarrow> Some (prepare_page fails i n p g))
           | _ \<Rightarrow> browser_step fails i n g)
      | CloseBrowser n \<Rightarrow>
          (case pc (tasks g i) of
             Start \<Rightarrow>
               (if locks g (close_key n) = None then Some (enter_close i n g)
                else Some (set_pc i CloseQueued g))
           | CloseQueued \<Rightarrow>
               (if locks g (close_key n) = None then Some (enter_close i n g) else None)
           | GotBrowser r \<Rightarrow>
               (case r of
                  Inl e \<Rightarrow> Some (leave_close i n (Inl e) g)
                | Inr bHandle \<Rightarrow>
                    Some (set_pc i (AwaitClose (length (trace (shared g))))
                            (g\<lparr> shared := post n (CloseHandle bHandle) (shared g) \<rparr>)))
           | AwaitClose k \<Rightarrow>
               (case outcome fails k of
                  Inl e \<Rightarrow> Some (leave_close i n (Inl e) g)
                | Inr u \<Rightarrow> Some (finish_close i n g))
           | _ \<Rightarrow> browser_step fails i n g))"

text \<open>
  A schedule names the request that moves next; a request that cannot move is skipped.
  At the start nothing is locked and no request has begun; a request that is never
  scheduled is a request that is never made.
\<close>

fun run :: "(nat \<Rightarrow> bool) \<Rightarrow> nat list \<Rightarrow> system \<Rightarrow> system" where
  "run fails [] g = g"
| "run fails (i # sched) g = run fails sched (case step fails i g of None \<Rightarrow> g | Some g' \<Rightarrow> g')"

definition start :: "state \<Rightarrow> (nat \<Rightarrow> request) \<Rightarrow> system" where
  "start s reqs =
     \<lparr> shared = s, locks = (\<lambda>k. None),
       tasks = (\<lambda>i. \<lparr> request = reqs i, pc = Start, brow = None \<rparr>) \<rparr>"

text \<open>Inside the launch section, inside the close section.\<close>

fun in_launch :: "task \<Rightarrow> bool" where
  "in_launch t = (case pc t of InLaunch w \<Rightarrow> True | _ \<Rightarrow> False)"

fun in_close :: "task \<Rightarrow> bool" where
  "in_close t =
     (is_close_request (request t) \<and>
      (case pc t of
         LaunchQueued \<Rightarrow> True
       | InLaunch w \<Rightarrow> True
       | GotBrowser r \<Rightarrow> True
       | AwaitClose k \<Rightarrow> True
       | _ \<Rightarrow> False))"

text \<open>
  A registry as the module builds it: different names have different objects, and every
  object in use was allocated.
\<close>

definition registry_ok :: "state \<Rightarrow> bool" where
  "registry_ok s =
     ((\<forall>m m' a. config s m = Some a \<and> config s m' = Some a \<longrightarrow> m = m')
      \<and> (\<forall>m a. config s m = Some a \<longrightarrow> a < next_obj s))"

text \<open>
  The discipline of the lock: a request inside the launch section of its instance holds
  the launch key of that instance, and a request inside the close section holds the close
  key.
\<close>

definition lock_inv :: "system \<Rightarrow> bool" where
  "lock_inv g =
     (\<forall>i. (in_launch (tasks g i) \<longrightarrow>
              locks g (launch_key (instance_of (request (tasks g i)))) = Some i)
        \<and> (in_close (tasks g i) \<longrightarrow>
              locks g (close_key (instance_of (request (tasks g i)))) = Some i))"



text \<open>
  When no external call fails: the launch calls for \<open>n\<close> are those made before
  (\<open>c0\<close>), and one more as soon as a launch is under way or a handle is stored.
\<close>

definition count_inv :: "string \<Rightarrow> nat \<Rightarrow> nat \<Rightarrow> system \<Rightarrow> bool" where
  "count_inv n ic c0 g =
     (launch_calls n (shared g) =
        c0 + (if browserHandle (objs (shared g) ic) \<noteq> None \<or> locks g (launch_key n) \<noteq> None
              then 1 else 0))"

text \<open>Example sets of requests: request 0 and the others.\<close>

definition launch_and_close :: "nat \<Rightarrow> request" where
  "launch_and_close i = (if i = 0 then GetBrowserHandle ''default'' else CloseBrowser ''default'')"

definition two_callers :: "nat \<Rightarrow> request" where
  "two_callers i = (if i = 0 then GetBrowserHandle ''default'' else NewPage ''default'')"

definition two_closers :: "nat \<Rightarrow> request" where
  "two_closers i = CloseBrowser ''default''"




section \<open>Auxiliary facts\<close>

lemma post_simps [simp]:
  "trace (post n c s) = trace s @ [(n, c)]"
  "objs (post n c s) = objs s"
  "config (post n c s) = config s"
  "next_obj (post n c s) = next_obj s"
  "args_heap (post n c s) = args_heap s"
  "hooks_heap (post n c s) = hooks_heap s"
  "logs (post n c s) = logs s"
  by (simp_all add: post_def)

lemma and_then_Inr:
  "(and_then m f s = (Inr r, s')) = (\<exists>x s1. m s = (Inr x, s1) \<and> f x s1 = (Inr r, s'))"
  by (auto simp: and_then_def split: prod.splits sum.splits)

lemma and_then_Inl:
  "(and_then m f s = (Inl e, s')) =
     (m s = (Inl e, s') \<or> (\<exists>x s1. m s = (Inr x, s1) \<and> f x s1 = (Inl e, s')))"
  by (auto simp: and_then_def split: prod.splits sum.splits)

lemma ext_Inr: "(ext fails n c s = (Inr k, s')) = (\<not> fails (length (trace s)) \<and> k = length (trace s) \<and> s' = post n c s)"
  by (auto simp: ext_def outcome_def)

lemma ext_Inl: "(ext fails n c s = (Inl e, s')) = (fails (length (trace s)) \<and> e = ExternalFailure (length (trace s)) \<and> s' = post n c s)"
  by (auto simp: ext_def outcome_def)

lemma ok_eq: "(ok x s = (r, s')) = (r = Inr x \<and> s' = s)"
  by (auto simp: ok_def)

lemma set_handle_simps [simp]:
  "trace (set_browserHandle ic h s) = trace s"
  "config (set_browserHandle ic h s) = config s"
  "logs (set_browserHandle ic h s) = logs s"
  "trace (set_nonPersistant ic h s) = trace s"
  "config (set_nonPersistant ic h s) = config s"
  "logs (set_nonPersistant ic h s) = logs s"
  by (simp_all add: set_browserHandle_def set_nonPersistant_def)


lemma browser_body_TypeError:
  "browser_body fails n s = (Inl TypeError, s') \<Longrightarrow> s' = s \<and> config s n = None"
  by (auto simp: browser_body_def and_then_Inl and_then_Inr ext_Inl ext_Inr Let_def
      split: option.splits if_splits)


lemma browser_eq:
  "browser fails n s = (r, s') \<longleftrightarrow>
     (\<exists>t. browser_body fails n s = (r, t) \<and>
          s' = (case r of Inl e \<Rightarrow> t\<lparr> logs := logs t @ [StartError e] \<rparr> | Inr h \<Rightarrow> t))"
  by (auto simp: browser_def split: prod.splits sum.splits)




lemma emit_simps [simp]:
  "trace (emit n evs s) = trace s @ map (Pair n) evs"
  "objs (emit n evs s) = objs s"
  "config (emit n evs s) = config s"
  "next_obj (emit n evs s) = next_obj s"
  "args_heap (emit n evs s) = args_heap s"
  "hooks_heap (emit n evs s) = hooks_heap s"
  "logs (emit n evs s) = logs s"
  by (simp_all add: emit_def)

lemma emit_emit [simp]: "emit n b (emit n a s) = emit n (a @ b) s"
  by (simp add: emit_def)

lemma emit_Nil [simp]: "emit n [] s = s"
  by (simp add: emit_def)

lemma post_emit: "post n c s = emit n [c] s"
  by (simp add: post_def emit_def)

lemma foldl_post_emit:
  "foldl (\<lambda>s' v. post n (c v) s') s vs = emit n (map c vs) s"
  by (induction vs arbitrary: s) (simp_all add: post_emit)

lemma loadHooks_emit_any:
  "loadHooks hs name n page s
     = emit n (map (\<lambda>v. HookAction (hook_action v) page) (filter (\<lambda>v. hook_name v = name) hs)) s"
  by (simp add: loadHooks_def foldl_post_emit)

lemma loadHooks_emit:
  "loadHooks (hooks_heap s (hooks (objs s ic))) ''make_page_faster'' n page s
     = emit n (hook_calls s ic page) s"
  by (simp add: loadHooks_emit_any hook_calls_def)

lemma and_then_InrE:
  assumes "and_then m f s = (Inr r, s')"
  obtains x s1 where "m s = (Inr x, s1)" "f x s1 = (Inr r, s')"
  using assms by (auto simp: and_then_Inr)

lemma ext_success:
  "ext fails n c s = (Inr k, s') \<Longrightarrow> k = length (trace s) \<and> s' = emit n [c] s"
  by (auto simp: ext_Inr post_emit)

lemma set_timeouts_success:
  "set_timeouts fails page n ic s = (Inr k, s') \<Longrightarrow>
     s' = emit n [SetDefaultNavigationTimeout page (defaultNavigationTimeout (objs s ic)),
                  SetDefaultTimeout page (defaultNavigationTimeout (objs s ic))] s"
  by (auto simp: set_timeouts_def and_then_Inr ext_Inr post_emit)

lemma open_session_success:
  "open_session fails page n ic s = (Inr session, s') \<Longrightarrow>
     session = (if browserEngine (objs s ic) = chromium then Some (length (trace s)) else None)
     \<and> s' = emit n (if browserEngine (objs s ic) = chromium then [NewCDPSession page] else []) s"
  by (auto simp: open_session_def and_then_Inr ext_Inr ok_eq post_emit split: if_splits)

lemma apply_stealth_success:
  "apply_stealth fails page n ic s = (Inr u, s') \<Longrightarrow>
     s' = emit n (if enableStealth (objs s ic) then [PageStealth page] else []) s"
  by (auto simp: apply_stealth_def and_then_Inr ext_Inr ok_eq post_emit split: if_splits)

lemma show_page_errors_success:
  "show_page_errors fails page n ic s = (Inr u, s') \<Longrightarrow>
     s' = emit n (if showPageError (objs s ic)
                  then [PageOn page ''pageerror'' PageErrorA, PageOn page ''pageerror'' PageErrorB]
                  else []) s"
  by (auto simp: show_page_errors_def and_then_Inr ext_Inr ok_eq post_emit split: if_splits)

lemma install_request_filter_success:
  "install_request_filter fails page n ic s = (Inr u, s') \<Longrightarrow>
     s' = emit n (if blockCSS (objs s ic) \<or> blockFonts (objs s ic) \<or> blockImages (objs s ic)
                  then [PageOn page ''request'' (RequestFilter ic)] else []) s"
  by (auto simp: install_request_filter_def and_then_Inr ext_Inr ok_eq post_emit split: if_splits)

lemma activate_session_success:
  "activate_session fails n session s = (Inr u, s') \<Longrightarrow>
     s' = emit n (case session of Some sess \<Rightarrow> [SessionSend sess ''Page.setWebLifecycleState'']
                  | None \<Rightarrow> []) s"
  by (auto simp: activate_session_def and_then_Inr ext_Inr ok_eq post_emit split: option.splits)

lemma makePageFaster_success:
  assumes "makePageFaster fails page n s = (Inr (session, page'), s')"
  shows "\<exists>ic. config s n = Some ic \<and> page' = page
          \<and> session = (if browserEngine (objs s ic) = chromium
                        then Some (length (trace s) + length (hook_calls s ic page) + 2) else None)
          \<and> s' = emit n (hook_calls s ic page @
                 page_calls (objs s ic) ic page (length (trace s) + length (hook_calls s ic page) + 2)) s"
proof -
  from assms obtain ic where ic: "config s n = Some ic"
    by (cases "config s n") (simp_all add: makePageFaster_def)
  from assms ic show ?thesis
    apply (simp add: makePageFaster_def loadHooks_emit)
    apply (elim and_then_InrE)
    apply (drule set_timeouts_success open_session_success apply_stealth_success
        show_page_errors_success install_request_filter_success activate_session_success
        ext_success)+
    apply (clarsimp simp: ok_eq page_calls_def)
    done
qed















lemmas eval_defs =
  configured_def never_def always_def initial_state_def update_config_def
  setProxy_def setDefaultBrowser_def setUserDataDir_def setUserAgent_def setWindowSizeArg_def
  set_blockImages_def set_blockFonts_def set_blockCSS_def
  getBrowserHandle_def browser_def browser_body_def and_then_def ext_def outcome_def post_def ok_def
  truthy_def launchOption_def persistentOption_def contextOption_def launch_args_def
  set_browserHandle_def set_nonPersistant_def no_options_def
  closeBrowser_def closeBrowser_body_def clear_handles_def

lemma persistent_launched_eq:
  "persistent_launched =
     \<lparr> config = [''default'' \<mapsto> 0],
       objs = (\<lambda>_. defaultConfig)
                (0 := defaultConfig\<lparr> browserHandle := Some 0, userDataDir := Some ''/tmp/profile'' \<rparr>),
       next_obj = 1,
       args_heap = (\<lambda>_. []),
       hooks_heap = (\<lambda>_. []),
       trace = [(''default'', LaunchPersistentContext chromium ''/tmp/profile''
                  (persistentOption (launchOption initial_state defaultConfig)))],
       logs = [] \<rparr>"
  by (simp add: persistent_launched_def eval_defs Let_def defaultConfig_def window_size_arg_def)







lemma calls_since_emit: "calls_since s (emit n evs s) = evs"
  by (simp add: calls_since_def o_def)

lemma ext_never: "\<forall>k. \<not> fails k \<Longrightarrow> ext fails n c s = (Inr (length (trace s)), emit n [c] s)"
  by (simp add: ext_def outcome_def post_emit)

lemma makePageFaster_total:
  assumes "\<forall>k. \<not> fails k" "config s n = Some ic"
  shows "makePageFaster fails page n s =
    (Inr (if browserEngine (objs s ic) = chromium
          then Some (length (trace s) + length (hook_calls s ic page) + 2) else None, page),
     emit n (hook_calls s ic page @
        page_calls (objs s ic) ic page (length (trace s) + length (hook_calls s ic page) + 2)) s)"
  using assms
  by (simp add: makePageFaster_def loadHooks_emit set_timeouts_def open_session_def apply_stealth_def
      show_page_errors_def install_request_filter_def activate_session_def
      and_then_def ext_never ok_def page_calls_def)

lemmas page_eval_defs =
  makePageFaster_def loadHooks_def set_timeouts_def open_session_def apply_stealth_def
  show_page_errors_def install_request_filter_def activate_session_def
  and_then_def ext_def outcome_def post_def ok_def never_def
  configured_def initial_state_def update_config_def setDefaultBrowser_def set_blockImages_def
  defaultConfig_def calls_since_def

lemma str_includes_sublist: "str_includes s sub = sublist sub s"
  by (induction s) (auto simp: sublist_Cons_right)

lemma waitForFrame_loop_found:
  "matching frameUrl (frames (i + k)) = Some f \<Longrightarrow>
   (\<forall>j. j < k \<longrightarrow> matching frameUrl (frames (i + j)) = None) \<Longrightarrow>
   waitForFrame_loop frames frameUrl i = Some (f, i + k)"
proof (induction k arbitrary: i)
  case 0
  then show ?case by (subst waitForFrame_loop.simps) simp
next
  case (Suc k)
  have "matching frameUrl (frames i) = None" using Suc.prems(2) [rule_format, of 0] by simp
  moreover have "waitForFrame_loop frames frameUrl (Suc i) = Some (f, Suc i + k)"
  proof (rule Suc.IH)
    show "matching frameUrl (frames (Suc i + k)) = Some f" using Suc.prems(1) by simp
    show "\<forall>j<k. matching frameUrl (frames (Suc i + j)) = None"
      using Suc.prems(2) [rule_format, of "Suc j" for j] by simp
  qed
  ultimately show ?case by (subst waitForFrame_loop.simps) simp
qed

lemma waitForFrame_loop_returns:
  "waitForFrame_loop frames frameUrl i = Some r \<Longrightarrow>
     \<exists>k. r = (the (matching frameUrl (frames k)), k) \<and> i \<le> k \<and> matching frameUrl (frames k) \<noteq> None"
proof (induction frames frameUrl i r rule: waitForFrame_loop.raw_induct [rotated 1, consumes 1])
  case (1 w frames frameUrl i r)
  show ?case
  proof (cases "matching frameUrl (frames i)")
    case None
    with 1(2) have "w frames frameUrl (Suc i) = Some r" by simp
    from 1(1) [OF this] show ?thesis by (auto intro: Suc_leD)
  next
    case (Some f)
    with 1(2) show ?thesis by auto
  qed
qed

lemma waitForFrame_loop_never:
  "(\<forall>k. matching frameUrl (frames k) = None) \<Longrightarrow> waitForFrame_loop frames frameUrl i = None"
  using waitForFrame_loop_returns [of frames frameUrl i]
  by (cases "waitForFrame_loop frames frameUrl i") auto

section \<open>Facts about concurrent requests\<close>

lemma browser_body_pieces: "browser_body fails n s = browser_pieces fails n s"
  by (simp add: browser_body_def browser_pieces_def browser_enter_def browser_resume_def
      and_then_def ext_def Let_def outcome_def
      split: option.splits sum.splits)

lemma keys_differ: "launch_key n \<noteq> close_key n"
proof
  assume "launch_key n = close_key n"
  then have "n = ''close_'' @ n" by (simp add: launch_key_def close_key_def)
  then have "length n = length (''close_'' @ n)" by (rule arg_cong)
  then show False by simp
qed

lemma set_pc_simps [simp]:
  "shared (set_pc i p g) = shared g"
  "locks (set_pc i p g) = locks g"
  "request (tasks (set_pc i p g) j) = request (tasks g j)"
  "pc (tasks (set_pc i p g) j) = (if j = i then p else pc (tasks g j))"
  "brow (tasks (set_pc i p g) j) = brow (tasks g j)"
  by (simp_all add: set_pc_def)

lemma settle_simps [simp]:
  "locks (settle i r g) = locks g"
  "request (tasks (settle i r g) j) = request (tasks g j)"
  "pc (tasks (settle i r g) j) =
     (if j = i then (case request (tasks g i) of GetBrowserHandle n \<Rightarrow> Done (Handle r)
                      | _ \<Rightarrow> GotBrowser r)
      else pc (tasks g j))"
  "brow (tasks (settle i r g) j) =
     (if j = i then (case r of Inl e \<Rightarrow> brow (tasks g i) | Inr h \<Rightarrow> Some h) else brow (tasks g j))"
  "config (shared (settle i r g)) = config (shared g)"
  "objs (shared (settle i r g)) = objs (shared g)"
  "trace (shared (settle i r g)) = trace (shared g)"
  "next_obj (shared (settle i r g)) = next_obj (shared g)"
  by (auto simp: settle_def Let_def split: request.splits sum.splits)

lemma leave_close_simps [simp]:
  "locks (leave_close i n r g) = (locks g)(close_key n := None)"
  "request (tasks (leave_close i n r g) j) = request (tasks g j)"
  "pc (tasks (leave_close i n r g) j) =
     (if j = i then Done (Closed (case r of Inl e \<Rightarrow> None | Inr v \<Rightarrow> Some v)) else pc (tasks g j))"
  "brow (tasks (leave_close i n r g) j) = brow (tasks g j)"
  "config (shared (leave_close i n r g)) = config (shared g)"
  "objs (shared (leave_close i n r g)) = objs (shared g)"
  "trace (shared (leave_close i n r g)) = trace (shared g)"
  "next_obj (shared (leave_close i n r g)) = next_obj (shared g)"
  by (auto simp: leave_close_def Let_def split: sum.splits)

lemma finish_close_simps [simp]:
  "locks (finish_close i n g) = (locks g)(close_key n := None)"
  "request (tasks (finish_close i n g) j) = request (tasks g j)"
  "\<exists>out. pc (tasks (finish_close i n g) j) = (if j = i then Done (Closed out) else pc (tasks g j))"
  "brow (tasks (finish_close i n g) j) = brow (tasks g j)"
  by (auto simp: finish_close_def split: sum.splits prod.splits)

lemma shared_upd_simps [simp]:
  "locks (g\<lparr> shared := s \<rparr>) = locks g"
  "tasks (g\<lparr> shared := s \<rparr>) = tasks g"
  by simp_all

lemma lock_inv_shared [simp]: "lock_inv (g\<lparr> shared := s \<rparr>) = lock_inv g"
  by (simp add: lock_inv_def)

lemma lock_invD:
  "lock_inv g \<Longrightarrow> in_launch (tasks g j) \<Longrightarrow>
     locks g (launch_key (instance_of (request (tasks g j)))) = Some j"
  "lock_inv g \<Longrightarrow> in_close (tasks g j) \<Longrightarrow>
     locks g (close_key (instance_of (request (tasks g j)))) = Some j"
  by (simp_all add: lock_inv_def)

lemma lock_inv_step:
  assumes inv: "lock_inv g"
    and others: "\<And>j. j \<noteq> i \<Longrightarrow> tasks g' j = tasks g j"
    and keys: "\<And>k. locks g' k = locks g k \<or> (locks g k = None \<and> locks g' k = Some i)
                 \<or> (locks g k = Some i \<and> locks g' k = None)"
    and self: "in_launch (tasks g' i) \<longrightarrow>
                 locks g' (launch_key (instance_of (request (tasks g' i)))) = Some i"
      "in_close (tasks g' i) \<longrightarrow>
                 locks g' (close_key (instance_of (request (tasks g' i)))) = Some i"
  shows "lock_inv g'"
  unfolding lock_inv_def
proof (intro allI)
  fix j
  show "(in_launch (tasks g' j) \<longrightarrow>
              locks g' (launch_key (instance_of (request (tasks g' j)))) = Some j)
        \<and> (in_close (tasks g' j) \<longrightarrow>
              locks g' (close_key (instance_of (request (tasks g' j)))) = Some j)"
  proof (cases "j = i")
    case True
    with self show ?thesis by simp
  next
    case False
    have a: "locks g' k = Some j" if "locks g k = Some j" for k
      using keys [of k] that False by auto
    from False others [of j] lock_invD [OF inv, of j] a show ?thesis by auto
  qed
qed

lemma lock_inv_set_pc:
  assumes "lock_inv g"
    "(case p of InLaunch w \<Rightarrow> True | _ \<Rightarrow> False) \<longrightarrow>
        locks g (launch_key (instance_of (request (tasks g i)))) = Some i"
    "is_close_request (request (tasks g i)) \<and>
     (case p of LaunchQueued \<Rightarrow> True | InLaunch w \<Rightarrow> True | GotBrowser r \<Rightarrow> True
        | AwaitClose k \<Rightarrow> True | _ \<Rightarrow> False) \<longrightarrow>
        locks g (close_key (instance_of (request (tasks g i)))) = Some i"
  shows "lock_inv (set_pc i p g)"
  using assms(1)
proof (rule lock_inv_step)
  show "tasks (set_pc i p g) j = tasks g j" if "j \<noteq> i" for j
    using that by (simp add: set_pc_def)
qed (use assms(2,3) in simp_all)

lemma upd_simps [simp]:
  "tasks (g\<lparr> shared := s, locks := l \<rparr>) = tasks g"
  "tasks (g\<lparr> locks := l \<rparr>) = tasks g"
  "locks (g\<lparr> shared := s, locks := l \<rparr>) = l"
  "shared (g\<lparr> locks := l \<rparr>) = shared g"
  by simp_all

lemma others_set_pc: "j \<noteq> i \<Longrightarrow> tasks (set_pc i p g) j = tasks g j"
  by (simp add: set_pc_def)

lemma others_settle: "j \<noteq> i \<Longrightarrow> tasks (settle i r g) j = tasks g j"
  by (simp add: settle_def Let_def)

lemma others_leave_close: "j \<noteq> i \<Longrightarrow> tasks (leave_close i n r g) j = tasks g j"
  by (simp add: leave_close_def Let_def others_set_pc)

lemma others_finish_close: "j \<noteq> i \<Longrightarrow> tasks (finish_close i n g) j = tasks g j"
  by (simp add: finish_close_def others_leave_close split: prod.splits sum.splits)

lemma others_enter_launch: "j \<noteq> i \<Longrightarrow> tasks (enter_launch i n g) j = tasks g j"
  by (simp add: enter_launch_def others_settle others_set_pc split: prod.splits section_result.splits)

lemma others_call_browser: "j \<noteq> i \<Longrightarrow> tasks (call_browser i n g) j = tasks g j"
  by (simp add: call_browser_def others_enter_launch others_set_pc split: option.splits)

lemma others_resume_launch: "j \<noteq> i \<Longrightarrow> tasks (resume_launch fails i n w g) j = tasks g j"
  by (simp add: resume_launch_def others_settle others_set_pc split: prod.splits section_result.splits)

lemma others_enter_close: "j \<noteq> i \<Longrightarrow> tasks (enter_close i n g) j = tasks g j"
  by (simp add: enter_close_def Let_def others_leave_close others_finish_close others_call_browser
      split: option.splits)

lemma others_prepare_page: "j \<noteq> i \<Longrightarrow> tasks (prepare_page fails i n p g) j = tasks g j"
  by (simp add: prepare_page_def others_set_pc split: prod.splits sum.splits)

lemmas others_simps = others_set_pc others_settle others_leave_close others_finish_close
  others_enter_launch others_call_browser others_resume_launch others_enter_close others_prepare_page

lemma browser_step_others:
  "browser_step fails i n g = Some g' \<Longrightarrow> j \<noteq> i \<Longrightarrow> tasks g' j = tasks g j"
  by (auto simp: browser_step_def others_simps split: pc.splits if_splits)

lemma step_others:
  "step fails i g = Some g' \<Longrightarrow> j \<noteq> i \<Longrightarrow> tasks g' j = tasks g j"
  by (auto simp: step_def others_simps browser_step_others
      split: pc.splits request.splits if_splits sum.splits)

lemma request_enter_launch [simp]: "request (tasks (enter_launch i n g) j) = request (tasks g j)"
  by (simp add: enter_launch_def split: prod.splits section_result.splits)

lemma request_call_browser [simp]: "request (tasks (call_browser i n g) j) = request (tasks g j)"
  by (simp add: call_browser_def split: option.splits)

lemma request_resume_launch [simp]:
  "request (tasks (resume_launch fails i n w g) j) = request (tasks g j)"
  by (simp add: resume_launch_def split: prod.splits section_result.splits)

lemma request_enter_close [simp]: "request (tasks (enter_close i n g) j) = request (tasks g j)"
  by (simp add: enter_close_def Let_def split: option.splits)

lemma request_prepare_page [simp]:
  "request (tasks (prepare_page fails i n p g) j) = request (tasks g j)"
  by (simp add: prepare_page_def split: prod.splits sum.splits)



lemma lock_inv_locks_upd:
  assumes "lock_inv g" "locks g k = None"
    "\<not> in_launch (tasks g i)" "\<not> in_close (tasks g i)"
  shows "lock_inv (g\<lparr> locks := (locks g)(k \<mapsto> i) \<rparr>)"
  using assms(1)
proof (rule lock_inv_step [where i = i])
  show "locks (g\<lparr>locks := (locks g)(k \<mapsto> i)\<rparr>) k' = locks g k' \<or>
         locks g k' = None \<and> locks (g\<lparr>locks := (locks g)(k \<mapsto> i)\<rparr>) k' = Some i \<or>
         locks g k' = Some i \<and> locks (g\<lparr>locks := (locks g)(k \<mapsto> i)\<rparr>) k' = None" for k'
    using assms(2) by simp
qed (use assms(3,4) in auto)

lemma lock_inv_enter_launch:
  assumes "lock_inv g" "locks g (launch_key n) = None" "n = instance_of (request (tasks g i))"
    "is_close_request (request (tasks g i)) \<longrightarrow> locks g (close_key n) = Some i"
  shows "lock_inv (enter_launch i n g)"
  using assms(1)
proof (rule lock_inv_step [where i = i])
  show "tasks (enter_launch i n g) j = tasks g j" if "j \<noteq> i" for j
    using that by (simp add: others_simps)
  show "locks (enter_launch i n g) k = locks g k \<or>
         locks g k = None \<and> locks (enter_launch i n g) k = Some i \<or>
         locks g k = Some i \<and> locks (enter_launch i n g) k = None" for k
    using assms(2) by (simp add: enter_launch_def split: prod.splits section_result.splits)
  show "in_launch (tasks (enter_launch i n g) i) \<longrightarrow>
     locks (enter_launch i n g) (launch_key (instance_of (request (tasks (enter_launch i n g) i)))) = Some i"
    using assms(3)
    by (simp add: enter_launch_def split: prod.splits section_result.splits request.splits)
  show "in_close (tasks (enter_launch i n g) i) \<longrightarrow>
     locks (enter_launch i n g) (close_key (instance_of (request (tasks (enter_launch i n g) i)))) = Some i"
    using assms(3,4) keys_differ [of n]
    by (auto simp: enter_launch_def split: prod.splits section_result.splits request.splits)
qed

lemma lock_inv_call_browser:
  assumes "lock_inv g" "n = instance_of (request (tasks g i))"
    "is_close_request (request (tasks g i)) \<longrightarrow> locks g (close_key n) = Some i"
  shows "lock_inv (call_browser i n g)"
proof (cases "locks g (launch_key n)")
  case None
  with assms show ?thesis by (simp add: call_browser_def lock_inv_enter_launch)
next
  case (Some j)
  with assms show ?thesis by (simp add: call_browser_def lock_inv_set_pc)
qed

lemma lock_inv_resume_launch:
  assumes "lock_inv g" "pc (tasks g i) = InLaunch w" "n = instance_of (request (tasks g i))"
  shows "lock_inv (resume_launch fails i n w g)"
proof -
  have l: "locks g (launch_key n) = Some i"
    using lock_invD(1) [OF assms(1), of i] assms(2,3) by simp
  have c: "is_close_request (request (tasks g i)) \<longrightarrow> locks g (close_key n) = Some i"
    using lock_invD(2) [OF assms(1), of i] assms(2,3) by simp
  from assms(1) show ?thesis
  proof (rule lock_inv_step [where i = i])
    show "tasks (resume_launch fails i n w g) j = tasks g j" if "j \<noteq> i" for j
      using that by (simp add: others_simps)
    show "locks (resume_launch fails i n w g) k = locks g k \<or>
         locks g k = None \<and> locks (resume_launch fails i n w g) k = Some i \<or>
         locks g k = Some i \<and> locks (resume_launch fails i n w g) k = None" for k
      using l by (simp add: resume_launch_def split: prod.splits section_result.splits)
    show "in_launch (tasks (resume_launch fails i n w g) i) \<longrightarrow>
       locks (resume_launch fails i n w g)
         (launch_key (instance_of (request (tasks (resume_launch fails i n w g) i)))) = Some i"
      using l assms(3)
      by (simp add: resume_launch_def split: prod.splits section_result.splits request.splits)
    show "in_close (tasks (resume_launch fails i n w g) i) \<longrightarrow>
       locks (resume_launch fails i n w g)
         (close_key (instance_of (request (tasks (resume_launch fails i n w g) i)))) = Some i"
      using c assms(3) keys_differ [of n]
      by (auto simp: resume_launch_def split: prod.splits section_result.splits request.splits)
  qed
qed

lemma lock_inv_leave_close:
  assumes "lock_inv g" "locks g (close_key n) = Some i"
  shows "lock_inv (leave_close i n r g)"
  using assms(1)
proof (rule lock_inv_step [where i = i])
  show "tasks (leave_close i n r g) j = tasks g j" if "j \<noteq> i" for j
    using that by (simp add: others_simps)
  show "locks (leave_close i n r g) k = locks g k \<or>
         locks g k = None \<and> locks (leave_close i n r g) k = Some i \<or>
         locks g k = Some i \<and> locks (leave_close i n r g) k = None" for k
    using assms(2) by simp
qed simp_all

lemma lock_inv_finish_close:
  assumes "lock_inv g" "locks g (close_key n) = Some i"
  shows "lock_inv (finish_close i n g)"
  using assms by (simp add: finish_close_def lock_inv_leave_close split: prod.splits sum.splits)

lemma lock_inv_enter_close:
  assumes "lock_inv g" "locks g (close_key n) = None" "n = instance_of (request (tasks g i))"
    "\<not> in_launch (tasks g i)" "\<not> in_close (tasks g i)"
  shows "lock_inv (enter_close i n g)"
proof -
  let ?g = "g\<lparr> locks := (locks g)(close_key n \<mapsto> i) \<rparr>"
  have 1: "lock_inv ?g" using assms by (simp add: lock_inv_locks_upd)
  have 2: "locks ?g (close_key n) = Some i" by simp
  show ?thesis
    using 1 2 assms(3)
    by (simp add: enter_close_def Let_def lock_inv_leave_close lock_inv_finish_close
        lock_inv_call_browser split: option.splits)
qed

lemma lock_inv_prepare_page: "lock_inv g \<Longrightarrow> lock_inv (prepare_page fails i n p g)"
  by (simp add: prepare_page_def lock_inv_set_pc split: prod.splits sum.splits)

lemma lock_inv_browser_step:
  assumes "lock_inv g" "browser_step fails i n g = Some g'" "n = instance_of (request (tasks g i))"
  shows "lock_inv g'"
proof -
  have c: "in_close (tasks g i) \<Longrightarrow> locks g (close_key n) = Some i"
    using lock_invD(2) [OF assms(1), of i] assms(3) by simp
  show ?thesis
  proof (cases "pc (tasks g i)")
    case LaunchQueued
    with assms c show ?thesis
      by (auto simp: browser_step_def intro!: lock_inv_enter_launch split: if_splits)
  next
    case (InLaunch w)
    with assms show ?thesis
      by (auto simp: browser_step_def intro!: lock_inv_resume_launch)
  qed (use assms in \<open>simp_all add: browser_step_def\<close>)
qed

lemma lock_inv_step_preserved:
  assumes "lock_inv g" "step fails i g = Some g'"
  shows "lock_inv g'"
proof (cases "request (tasks g i)")
  case (GetBrowserHandle n)
  with assms show ?thesis
    by (auto simp: step_def lock_inv_call_browser split: pc.splits
        elim: lock_inv_browser_step [rotated])
next
  case (NewPage n)
  with assms show ?thesis
    by (auto simp: step_def lock_inv_call_browser lock_inv_set_pc lock_inv_prepare_page
        split: pc.splits if_splits sum.splits elim: lock_inv_browser_step [rotated])
next
  case (CloseBrowser n)
  have c: "in_close (tasks g i) \<Longrightarrow> locks g (close_key n) = Some i"
    using lock_invD(2) [OF assms(1), of i] CloseBrowser by simp
  from assms CloseBrowser c show ?thesis
    by (auto simp: step_def lock_inv_set_pc lock_inv_leave_close lock_inv_finish_close
        split: pc.splits if_splits sum.splits
        intro!: lock_inv_enter_close elim: lock_inv_browser_step [rotated])
qed

lemma lock_inv_start: "lock_inv (start s reqs)"
  by (simp add: lock_inv_def start_def)

lemma lock_inv_run: "lock_inv g \<Longrightarrow> lock_inv (run fails sched g)"
proof (induction sched arbitrary: g)
  case Nil
  then show ?case by simp
next
  case (Cons i sched)
  then show ?case
    by (cases "step fails i g") (auto intro: lock_inv_step_preserved)
qed

lemma excl_launch:
  assumes inv: "lock_inv g" and "in_launch (tasks g i)" "in_launch (tasks g j)"
    "instance_of (request (tasks g i)) = instance_of (request (tasks g j))"
  shows "i = j"
proof -
  have 1: "locks g (launch_key (instance_of (request (tasks g i)))) = Some i"
    using inv assms(2) by (rule lock_invD(1))
  have 2: "locks g (launch_key (instance_of (request (tasks g j)))) = Some j"
    using inv assms(3) by (rule lock_invD(1))
  from 1 have "locks g (launch_key (instance_of (request (tasks g j)))) = Some i"
    by (simp only: assms(4))
  with 2 have "Some j = Some i" by (simp only:)
  then show ?thesis by (simp only: option.inject)
qed

lemma excl_close:
  assumes inv: "lock_inv g" and "in_close (tasks g i)" "in_close (tasks g j)"
    "instance_of (request (tasks g i)) = instance_of (request (tasks g j))"
  shows "i = j"
proof -
  have 1: "locks g (close_key (instance_of (request (tasks g i)))) = Some i"
    using inv assms(2) by (rule lock_invD(2))
  have 2: "locks g (close_key (instance_of (request (tasks g j)))) = Some j"
    using inv assms(3) by (rule lock_invD(2))
  from 1 have "locks g (close_key (instance_of (request (tasks g j)))) = Some i"
    by (simp only: assms(4))
  with 2 have "Some j = Some i" by (simp only:)
  then show ?thesis by (simp only: option.inject)
qed

lemmas run_eval_defs =
  start_def step_def browser_step_def call_browser_def enter_launch_def resume_launch_def
  enter_close_def finish_close_def leave_close_def settle_def prepare_page_def set_pc_def
  browser_enter_def browser_resume_def launch_key_def close_key_def clear_handles_def
  initial_state_def defaultConfig_def never_def always_def outcome_def post_def
  set_browserHandle_def set_nonPersistant_def truthy_def and_then_def Let_def



lemma registry_ok_frame:
  "config s' = config s \<Longrightarrow> next_obj s' = next_obj s \<Longrightarrow> registry_ok s' = registry_ok s"
  by (simp add: registry_ok_def)

lemma registry_ok_simps [simp]:
  "registry_ok (post n c s) = registry_ok s"
  "registry_ok (set_browserHandle a h s) = registry_ok s"
  "registry_ok (set_nonPersistant a h s) = registry_ok s"
  "registry_ok (emit n evs s) = registry_ok s"
  "registry_ok (s\<lparr> logs := l \<rparr>) = registry_ok s"
  by (simp_all add: registry_ok_def set_browserHandle_def set_nonPersistant_def)

lemma registry_ok_settle [simp]: "registry_ok (shared (settle i r g)) = registry_ok (shared g)"
  by (simp add: registry_ok_def)


lemma launch_key_inj [simp]: "(launch_key n = launch_key m) = (n = m)"
  by (simp add: launch_key_def)








lemma shared_self [simp]: "g\<lparr> shared := shared g \<rparr> = g"
  by simp














lemma launch_calls_simps [simp]:
  "launch_calls n (set_browserHandle a h s) = launch_calls n s"
  "launch_calls n (set_nonPersistant a h s) = launch_calls n s"
  "launch_calls n (s\<lparr> logs := l \<rparr>) = launch_calls n s"
  "launch_calls n (init b m s) = launch_calls n s"
  by (simp_all add: launch_calls_def init_def Let_def)

lemma launch_calls_settle [simp]:
  "launch_calls n (shared (settle i r g)) = launch_calls n (shared g)"
  by (simp add: launch_calls_def)

lemma count_inv_settle [simp]: "count_inv n ic c0 (settle i r g) = count_inv n ic c0 g"
  by (simp add: count_inv_def)










lemma registry_ok_initial: "registry_ok initial_state"
  by (simp add: registry_ok_def initial_state_def)

section \<open>One launch, one handle\<close>




section \<open>The sections of launch and close\<close>

text \<open>
  C2 (amended). Launch and close use two keys, \<open>"instance_" + name\<close> and
  \<open>"instance_close_" + name\<close>, which differ for every name. In every state that
  requests started from any registry can reach, in any order and whatever fails, at most
  one request is inside the launch section of an instance, and at most one is inside the
  close section of an instance.
\<close>

theorem C2_sections_by_kind:
  "launch_key n \<noteq> close_key n
   \<and> (\<forall>i j. in_launch (tasks (run fails sched (start s reqs)) i)
            \<and> in_launch (tasks (run fails sched (start s reqs)) j)
            \<and> instance_of (request (tasks (run fails sched (start s reqs)) i))
                = instance_of (request (tasks (run fails sched (start s reqs)) j))
          \<longrightarrow> i = j)
   \<and> (\<forall>i j. in_close (tasks (run fails sched (start s reqs)) i)
            \<and> in_close (tasks (run fails sched (start s reqs)) j)
            \<and> instance_of (request (tasks (run fails sched (start s reqs)) i))
                = instance_of (request (tasks (run fails sched (start s reqs)) j))
          \<longrightarrow> i = j)"
proof -
  have inv: "lock_inv (run fails sched (start s reqs))"
    by (rule lock_inv_run) (rule lock_inv_start)
  show ?thesis
  proof (intro conjI allI impI)
    show "launch_key n \<noteq> close_key n" by (rule keys_differ)
  next
    fix i j
    assume "in_launch (tasks (run fails sched (start s reqs)) i)
            \<and> in_launch (tasks (run fails sched (start s reqs)) j)
            \<and> instance_of (request (tasks (run fails sched (start s reqs)) i))
                = instance_of (request (tasks (run fails sched (start s reqs)) j))"
    then show "i = j" by (elim conjE) (rule excl_launch [OF inv])
  next
    fix i j
    assume "in_close (tasks (run fails sched (start s reqs)) i)
            \<and> in_close (tasks (run fails sched (start s reqs)) j)
            \<and> instance_of (request (tasks (run fails sched (start s reqs)) i))
                = instance_of (request (tasks (run fails sched (start s reqs)) j))"
    then show "i = j" by (elim conjE) (rule excl_close [OF inv])
  qed
qed

theorem C2_sections_by_kind_witness:
  "in_launch (tasks (run never [0, 1] (start initial_state two_callers)) 0)
   \<and> \<not> in_launch (tasks (run never [0, 1] (start initial_state two_callers)) 1)
   \<and> pc (tasks (run never [0, 1] (start initial_state two_callers)) 1) = LaunchQueued
   \<and> in_close (tasks (run never [0, 0, 1] (start persistent_launched two_closers)) 0)
   \<and> \<not> in_close (tasks (run never [0, 0, 1] (start persistent_launched two_closers)) 1)
   \<and> pc (tasks (run never [0, 0, 1] (start persistent_launched two_closers)) 1) = CloseQueued"
proof -
  define g where "g = run never [0, 1] (start initial_state two_callers)"
  define h where "h = run never [0, 0, 1] (start persistent_launched two_closers)"
  have g: "in_launch (tasks g 0)" "pc (tasks g 1) = LaunchQueued"
    "instance_of (request (tasks g 1)) = instance_of (request (tasks g 0))"
    unfolding g_def by (simp_all add: run_eval_defs two_callers_def)
  have h: "in_close (tasks h 0)" "pc (tasks h 1) = CloseQueued"
    "instance_of (request (tasks h 1)) = instance_of (request (tasks h 0))"
    unfolding h_def by (simp_all add: persistent_launched_eq run_eval_defs two_closers_def)
  have "in_launch (tasks g 1) \<and> in_launch (tasks g 0)
      \<and> instance_of (request (tasks g 1)) = instance_of (request (tasks g 0)) \<longrightarrow> (1::nat) = 0"
    using C2_sections_by_kind [of "''default''" never "[0, 1]" initial_state two_callers]
    unfolding g_def by blast
  with g have 1: "\<not> in_launch (tasks g 1)" by simp
  have "in_close (tasks h 1) \<and> in_close (tasks h 0)
      \<and> instance_of (request (tasks h 1)) = instance_of (request (tasks h 0)) \<longrightarrow> (1::nat) = 0"
    using C2_sections_by_kind [of "''default''" never "[0, 0, 1]" persistent_launched two_closers]
    unfolding h_def by blast
  with h have 2: "\<not> in_close (tasks h 1)" by simp
  from g h 1 2 show ?thesis unfolding g_def h_def by simp
qed

text \<open>
  C2 as stated fails. Request 0 is \<open>getBrowserHandle\<close> and request 1 is
  \<open>closeBrowser\<close>, both for \<open>default\<close>. Request 0 runs to its second await
  (\<open>browser.newContext\<close>) and holds the launch key; then the whole close section of
  request 1 runs: it closes the browser that request 0 is waiting on and clears the handle
  fields, while request 0 is still inside the launch section.
\<close>

theorem C2_counterexample:
  "pc (tasks (run never [0, 0] (start initial_state launch_and_close)) 0)
      = InLaunch (AwaitNewContext 0 1)
   \<and> pc (tasks (run never [0, 0, 1] (start initial_state launch_and_close)) 0)
      = InLaunch (AwaitNewContext 0 1)
   \<and> pc (tasks (run never [0, 0, 1] (start initial_state launch_and_close)) 1)
      = Done (Closed (Some ''closed''))
   \<and> map snd (trace (shared (run never [0, 0, 1] (start initial_state launch_and_close))))
      = [Launch chromium (launchOption initial_state defaultConfig),
         NewContext 0 (contextOption defaultConfig),
         CloseHandle 0]
   \<and> launch_key ''default'' \<noteq> close_key ''default''"
  by (simp add: run_eval_defs launch_and_close_def launchOption_def contextOption_def
      launch_args_def window_size_arg_def no_options_def)

section \<open>Closing and launching again\<close>




section \<open>The request filter\<close>

text \<open>
  C4. In a run of \<open>makePageFaster\<close> that resolves: when at least one of
  \<open>blockImages\<close>, \<open>blockFonts\<close>, \<open>blockCSS\<close> is set, exactly one listener on
  \<open>request\<close> is installed, and it aborts a request whose resource type is that of a
  category that is set (\<open>image\<close>, \<open>font\<close>, \<open>stylesheet\<close>) and continues every
  other request; when none of the three is set, no listener on \<open>request\<close> is installed.
\<close>

theorem C4_request_filter:
  "makePageFaster fails page n s = (Inr r, s') \<longrightarrow>
     (\<exists>ic. config s n = Some ic \<and> objs s' ic = objs s ic
        \<and> (if blockImages (objs s ic) \<or> blockFonts (objs s ic) \<or> blockCSS (objs s ic)
            then filter is_request_listener (calls_since s s')
                   = [PageOn page ''request'' (RequestFilter ic)]
               \<and> (\<forall>resourceType.
                    on_request s' (RequestFilter ic) resourceType =
                      Some (if (blockImages (objs s ic) \<and> resourceType = ''image'')
                               \<or> (blockFonts (objs s ic) \<and> resourceType = ''font'')
                               \<or> (blockCSS (objs s ic) \<and> resourceType = ''stylesheet'')
                            then Abort else Continue))
            else filter is_request_listener (calls_since s s') = []))"
proof
  assume a: "makePageFaster fails page n s = (Inr r, s')"
  obtain session page' where r: "r = (session, page')" by (cases r)
  from makePageFaster_success [OF a [unfolded r]] obtain ic where ic: "config s n = Some ic"
    and s': "s' = emit n (hook_calls s ic page @
               page_calls (objs s ic) ic page (length (trace s) + length (hook_calls s ic page) + 2)) s"
    by blast
  have h: "filter is_request_listener (hook_calls s ic page) = []"
    by (simp add: hook_calls_def filter_map o_def)
  have "objs s' ic = objs s ic" by (simp add: s')
  moreover have "(if blockImages (objs s ic) \<or> blockFonts (objs s ic) \<or> blockCSS (objs s ic)
            then filter is_request_listener (calls_since s s')
                   = [PageOn page ''request'' (RequestFilter ic)]
               \<and> (\<forall>resourceType.
                    on_request s' (RequestFilter ic) resourceType =
                      Some (if (blockImages (objs s ic) \<and> resourceType = ''image'')
                               \<or> (blockFonts (objs s ic) \<and> resourceType = ''font'')
                               \<or> (blockCSS (objs s ic) \<and> resourceType = ''stylesheet'')
                            then Abort else Continue))
            else filter is_request_listener (calls_since s s') = [])"
    using h unfolding s' calls_since_emit
    by (simp add: page_calls_def request_handler_def)
  ultimately show "\<exists>ic. config s n = Some ic \<and> objs s' ic = objs s ic
        \<and> (if blockImages (objs s ic) \<or> blockFonts (objs s ic) \<or> blockCSS (objs s ic)
            then filter is_request_listener (calls_since s s')
                   = [PageOn page ''request'' (RequestFilter ic)]
               \<and> (\<forall>resourceType.
                    on_request s' (RequestFilter ic) resourceType =
                      Some (if (blockImages (objs s ic) \<and> resourceType = ''image'')
                               \<or> (blockFonts (objs s ic) \<and> resourceType = ''font'')
                               \<or> (blockCSS (objs s ic) \<and> resourceType = ''stylesheet'')
                            then Abort else Continue))
            else filter is_request_listener (calls_since s s') = [])"
    using ic by blast
qed

theorem C4_request_filter_witness:
  "fst (makePageFaster never 7 ''default'' blocking_example) = Inr (Some 2, 7)
   \<and> filter is_request_listener
        (calls_since blocking_example (snd (makePageFaster never 7 ''default'' blocking_example)))
       = [PageOn 7 ''request'' (RequestFilter 0)]
   \<and> on_request (snd (makePageFaster never 7 ''default'' blocking_example)) (RequestFilter 0) ''image''
       = Some Abort
   \<and> on_request (snd (makePageFaster never 7 ''default'' blocking_example)) (RequestFilter 0) ''font''
       = Some Continue
   \<and> filter is_request_listener
        (calls_since initial_state (snd (makePageFaster never 7 ''default'' initial_state)))
       = []"
proof -
  have f1: "fst (makePageFaster never 7 ''default'' blocking_example) = Inr (Some 2, 7)"
    by (simp add: page_eval_defs blocking_example_def)
  have f2: "fst (makePageFaster never 7 ''default'' initial_state) = Inr (Some 2, 7)"
    by (simp add: page_eval_defs)
  have h1: "makePageFaster never 7 ''default'' blocking_example
      = (Inr (Some 2, 7), snd (makePageFaster never 7 ''default'' blocking_example))"
    by (simp add: prod_eq_iff f1)
  have h2: "makePageFaster never 7 ''default'' initial_state
      = (Inr (Some 2, 7), snd (makePageFaster never 7 ''default'' initial_state))"
    by (simp add: prod_eq_iff f2)
  have c: "config blocking_example ''default'' = Some 0" "blockImages (objs blocking_example 0)"
    "\<not> blockFonts (objs blocking_example 0)" "\<not> blockCSS (objs blocking_example 0)"
    "config initial_state ''default'' = Some 0" "\<not> blockImages (objs initial_state 0)"
    "\<not> blockFonts (objs initial_state 0)" "\<not> blockCSS (objs initial_state 0)"
    by (simp_all add: page_eval_defs blocking_example_def)
  from C4_request_filter [of never 7 "''default''" blocking_example "(Some 2, 7)"
      "snd (makePageFaster never 7 ''default'' blocking_example)"] h1 c
  have a: "filter is_request_listener
        (calls_since blocking_example (snd (makePageFaster never 7 ''default'' blocking_example)))
       = [PageOn 7 ''request'' (RequestFilter 0)]
     \<and> on_request (snd (makePageFaster never 7 ''default'' blocking_example)) (RequestFilter 0) ''image''
       = Some Abort
     \<and> on_request (snd (makePageFaster never 7 ''default'' blocking_example)) (RequestFilter 0) ''font''
       = Some Continue"
    by auto
  from C4_request_filter [of never 7 "''default''" initial_state "(Some 2, 7)"
      "snd (makePageFaster never 7 ''default'' initial_state)"] h2 c
  have b: "filter is_request_listener
        (calls_since initial_state (snd (makePageFaster never 7 ''default'' initial_state)))
       = []"
    by auto
  from a b f1 show ?thesis by simp
qed

section \<open>Settings in the launch call\<close>

text \<open>
  C5 (evaluated at the failing input). With a profile directory set, the one call made
  is \<open>launchPersistentContext\<close>, and its options have neither \<open>userAgent\<close> nor
  \<open>viewport\<close>: the user agent set before the launch reaches the external library
  nowhere, and with firefox the window size reaches it nowhere either (with chromium it
  is in \<open>--window-size\<close> only).
\<close>

theorem C5_persistent_context_ignores_user_agent:
  "calls_since initial_state (snd (getBrowserHandle never ''default''
      (configured [setUserDataDir ''default'' ''/tmp/profile'',
                   setUserAgent ''default'' ''MyAgent/1.0'',
                   setWindowSizeArg ''default'' (800, 600)])))
     = [LaunchPersistentContext chromium ''/tmp/profile''
          \<lparr> opt_headless = Some False,
            opt_args = Some [''--no-sandbox'', ''--allow-running-insecure-content'',
               ''--disable-background-timer-throttling'',
               ''--disable-backgrounding-occluded-windows'',
               ''--disable-renderer-backgrounding'', ''--disable-web-security'',
               ''--window-size=800,600''],
            opt_devtools = Some False, opt_acceptDownloads = Some True,
            opt_downloadsPath = None, opt_proxy = None, opt_colorScheme = Some ''dark'',
            opt_ignoreHTTPSErrors = None, opt_bypassCSP = None,
            opt_userAgent = None, opt_viewport = None \<rparr>]
   \<and> calls_since initial_state (snd (getBrowserHandle never ''default''
      (configured [setDefaultBrowser ''default'' firefox,
                   setUserDataDir ''default'' ''/tmp/profile'',
                   setUserAgent ''default'' ''MyAgent/1.0'',
                   setWindowSizeArg ''default'' (800, 600)])))
     = [LaunchPersistentContext firefox ''/tmp/profile''
          \<lparr> opt_headless = Some False, opt_args = Some [],
            opt_devtools = Some False, opt_acceptDownloads = Some True,
            opt_downloadsPath = None, opt_proxy = None, opt_colorScheme = Some ''dark'',
            opt_ignoreHTTPSErrors = None, opt_bypassCSP = None,
            opt_userAgent = None, opt_viewport = None \<rparr>]"
  by (simp add: eval_defs calls_since_def defaultConfig_def Let_def window_size_arg_def num_str_def
      nat_str.simps digit_char_def)

section \<open>Failures of launch and close\<close>



section \<open>Waiting for a frame\<close>

text \<open>
  C7. \<open>waitForFrame\<close> takes, in each scan, the first frame whose URL contains
  \<open>frameUrl\<close>. If scan \<open>k\<close> is the first scan with such a frame, it returns that
  frame, having slept \<open>k\<close> times 100 ms. If no scan ever has such a frame, it never
  returns: nothing in the loop bounds it.
\<close>

theorem C7_waitForFrame:
  "(matching frameUrl fs = find (\<lambda>f. sublist frameUrl (frame_url f)) fs)
   \<and> (matching frameUrl (frames k) = Some f \<and> (\<forall>j. j < k \<longrightarrow> matching frameUrl (frames j) = None)
        \<longrightarrow> waitForFrame frames frameUrl = Some (f, 100 * k))
   \<and> ((\<forall>j. matching frameUrl (frames j) = None) \<longrightarrow> waitForFrame frames frameUrl = None)"
proof -
  have a: "matching frameUrl fs = find (\<lambda>f. sublist frameUrl (frame_url f)) fs"
    by (simp add: matching_def str_includes_sublist)
  have b: "waitForFrame frames frameUrl = Some (f, 100 * k)"
    if "matching frameUrl (frames k) = Some f" "\<forall>j. j < k \<longrightarrow> matching frameUrl (frames j) = None"
    using waitForFrame_loop_found [of frameUrl frames 0 k f] that by (simp add: waitForFrame_def)
  have c: "waitForFrame frames frameUrl = None" if "\<forall>j. matching frameUrl (frames j) = None"
    using waitForFrame_loop_never [of frameUrl frames 0] that by (simp add: waitForFrame_def)
  from a b c show ?thesis by blast
qed

theorem C7_waitForFrame_witness:
  "waitForFrame late_frame ''pay.example''
      = Some (\<lparr> frame_id = 1, frame_url = ''https://pay.example/checkout'' \<rparr>, 200)
   \<and> waitForFrame one_frame ''pay.example'' = None"
proof -
  have m: "matching ''pay.example'' [\<lparr> frame_id = 0, frame_url = ''https://shop.example/cart'' \<rparr>] = None"
    by (simp add: matching_def)
  have h1: "matching ''pay.example'' (late_frame 2)
      = Some \<lparr> frame_id = 1, frame_url = ''https://pay.example/checkout'' \<rparr>"
    by (simp add: matching_def late_frame_def)
  have h2: "\<forall>j. j < 2 \<longrightarrow> matching ''pay.example'' (late_frame j) = None"
    using m by (simp add: late_frame_def)
  have h3: "\<forall>j. matching ''pay.example'' (one_frame j) = None"
    using m by (simp add: one_frame_def)
  from C7_waitForFrame [of "''pay.example''" "[]" late_frame 2
      "\<lparr> frame_id = 1, frame_url = ''https://pay.example/checkout'' \<rparr>"] h1 h2
  have a: "waitForFrame late_frame ''pay.example''
      = Some (\<lparr> frame_id = 1, frame_url = ''https://pay.example/checkout'' \<rparr>, 200)"
    by simp
  from C7_waitForFrame [of "''pay.example''" "[]" one_frame 0 "\<lparr> frame_id = 0, frame_url = [] \<rparr>"] h3
  have b: "waitForFrame one_frame ''pay.example'' = None"
    by blast
  from a b show ?thesis by simp
qed

section \<open>Frame properties of the setters\<close>

text \<open>
  C8 (evaluated at the failing input). After \<open>init\<close> has copied the defaults into
  instance \<open>a\<close>, one \<open>addArg\<close> on \<open>a\<close> changes the argument list read through
  \<open>getConfig\<close> for \<open>default\<close>: the spread copied the reference to the one array.
  The same holds for \<open>addHook\<close>.
\<close>

theorem C8_addArg_changes_default:
  "observed_config ''default'' (init True ''a'' initial_state)
     = Some (defaultConfig, [], [])
   \<and> (case addArg ''a'' ''--mute-audio'' (init True ''a'' initial_state) of
        Inl e \<Rightarrow> False
      | Inr s' \<Rightarrow> observed_config ''default'' s' = Some (defaultConfig, [''--mute-audio''], []))
   \<and> (case addHook ''a'' ''make_page_faster'' 7 (init True ''a'' initial_state) of
        Inl e \<Rightarrow> False
      | Inr s' \<Rightarrow> observed_config ''default'' s'
          = Some (defaultConfig, [], [\<lparr> hook_name = ''make_page_faster'', hook_action = 7 \<rparr>]))"
  by (simp add: observed_config_def getConfig_def observe_def init_def initial_state_def
      addArg_def addHook_def Let_def defaultConfig_def)

section \<open>When a configuration record comes into existence\<close>




section \<open>What makePageFaster returns\<close>

text \<open>
  C10. When \<open>makePageFaster\<close> resolves, the page it returns is the page it was given,
  and the session is not null exactly when the browser of the instance is chromium. For
  firefox and webkit the session is null and no message is sent to a session; for
  chromium the one message sent is \<open>Page.setWebLifecycleState\<close>, to the session
  returned. It does resolve when the instance exists and no external call fails.
\<close>

theorem C10_page_and_session:
  "(makePageFaster fails page n s = (Inr (session, page'), s') \<longrightarrow>
      page' = page
    \<and> (\<exists>ic. config s n = Some ic
         \<and> (session \<noteq> None \<longleftrightarrow> browserEngine (objs s ic) = chromium)
         \<and> (browserEngine (objs s ic) = firefox \<or> browserEngine (objs s ic) = webkit \<longrightarrow>
               session = None \<and> filter is_session_send (calls_since s s') = [])
         \<and> (browserEngine (objs s ic) = chromium \<longrightarrow>
               (\<exists>k. session = Some k
                 \<and> filter is_session_send (calls_since s s')
                     = [SessionSend k ''Page.setWebLifecycleState'']))))
   \<and> ((\<forall>k. \<not> fails2 k) \<and> config t m \<noteq> None \<longrightarrow>
        (\<exists>session2 t'. makePageFaster fails2 page2 m t = (Inr (session2, page2), t')))"
proof -
  have success: "page' = page
    \<and> (\<exists>ic. config s n = Some ic
         \<and> (session \<noteq> None \<longleftrightarrow> browserEngine (objs s ic) = chromium)
         \<and> (browserEngine (objs s ic) = firefox \<or> browserEngine (objs s ic) = webkit \<longrightarrow>
               session = None \<and> filter is_session_send (calls_since s s') = [])
         \<and> (browserEngine (objs s ic) = chromium \<longrightarrow>
               (\<exists>k. session = Some k
                 \<and> filter is_session_send (calls_since s s')
                     = [SessionSend k ''Page.setWebLifecycleState''])))"
    if a: "makePageFaster fails page n s = (Inr (session, page'), s')"
  proof -
    from makePageFaster_success [OF a] obtain ic where ic: "config s n = Some ic"
      and p: "page' = page"
      and se: "session = (if browserEngine (objs s ic) = chromium
                        then Some (length (trace s) + length (hook_calls s ic page) + 2) else None)"
      and s': "s' = emit n (hook_calls s ic page @
                 page_calls (objs s ic) ic page (length (trace s) + length (hook_calls s ic page) + 2)) s"
      by blast
    have h: "filter is_session_send (hook_calls s ic page) = []"
      by (simp add: hook_calls_def filter_map o_def)
    show ?thesis
      using ic p se h unfolding s' calls_since_emit
      by (cases "browserEngine (objs s ic)") (simp_all add: page_calls_def)
  qed
  have total: "\<exists>session2 t'. makePageFaster fails2 page2 m t = (Inr (session2, page2), t')"
    if "\<forall>k. \<not> fails2 k" "config t m \<noteq> None"
    using that by (auto simp: makePageFaster_total)
  from success total show ?thesis by blast
qed

theorem C10_page_and_session_witness:
  "fst (makePageFaster never 7 ''default'' initial_state) = Inr (Some 2, 7)
   \<and> filter is_session_send
        (calls_since initial_state (snd (makePageFaster never 7 ''default'' initial_state)))
       = [SessionSend 2 ''Page.setWebLifecycleState'']
   \<and> fst (makePageFaster never 7 ''default'' firefox_example) = Inr (None, 7)
   \<and> filter is_session_send
        (calls_since firefox_example (snd (makePageFaster never 7 ''default'' firefox_example)))
       = []"
proof -
  have f1: "fst (makePageFaster never 7 ''default'' initial_state) = Inr (Some 2, 7)"
    by (simp add: page_eval_defs)
  have f2: "fst (makePageFaster never 7 ''default'' firefox_example) = Inr (None, 7)"
    by (simp add: page_eval_defs firefox_example_def)
  have h1: "makePageFaster never 7 ''default'' initial_state
      = (Inr (Some 2, 7), snd (makePageFaster never 7 ''default'' initial_state))"
    by (simp add: prod_eq_iff f1)
  have h2: "makePageFaster never 7 ''default'' firefox_example
      = (Inr (None, 7), snd (makePageFaster never 7 ''default'' firefox_example))"
    by (simp add: prod_eq_iff f2)
  have c: "config initial_state ''default'' = Some 0" "browserEngine (objs initial_state 0) = chromium"
    "config firefox_example ''default'' = Some 0" "browserEngine (objs firefox_example 0) = firefox"
    by (simp_all add: page_eval_defs firefox_example_def)
  from C10_page_and_session [of never 7 "''default''" initial_state "Some 2" 7
      "snd (makePageFaster never 7 ''default'' initial_state)" never initial_state "''default''" 7] h1 c
  have a: "filter is_session_send
        (calls_since initial_state (snd (makePageFaster never 7 ''default'' initial_state)))
       = [SessionSend 2 ''Page.setWebLifecycleState'']"
    by auto
  from C10_page_and_session [of never 7 "''default''" firefox_example None 7
      "snd (makePageFaster never 7 ''default'' firefox_example)" never initial_state "''default''" 7] h2 c
  have b: "filter is_session_send
        (calls_since firefox_example (snd (makePageFaster never 7 ''default'' firefox_example)))
       = []"
    by auto
  from a b f1 f2 show ?thesis by simp
qed

end
